theory Spec2Isabelle
  imports Main
begin

section \<open>Python strings\<close>

text \<open>
  A Python \<open>str\<close> is modelled as an Isabelle \<open>string\<close>: a list of characters, each a
  code point below 256. On that range \<open>str.isspace\<close>, \<open>str.lower\<close> and
  \<open>str.isprintable\<close> are the tables written out below.
\<close>

definition py_isspace :: "char \<Rightarrow> bool" where
  "py_isspace c = ((of_char c :: nat) \<in> {9, 10, 11, 12, 13, 28, 29, 30, 31, 32, 133, 160})"

definition py_strip :: "string \<Rightarrow> string" where
  "py_strip s = rev (dropWhile py_isspace (rev (dropWhile py_isspace s)))"

definition is_upper :: "char \<Rightarrow> bool" where
  "is_upper c = (let n = (of_char c :: nat) in
     (65 \<le> n \<and> n \<le> 90) \<or> (192 \<le> n \<and> n \<le> 222 \<and> n \<noteq> 215))"

definition lower_char :: "char \<Rightarrow> char" where
  "lower_char c = (if is_upper c then char_of ((of_char c :: nat) + 32) else c)"

definition py_lower :: "string \<Rightarrow> string" where
  "py_lower s = map lower_char s"

fun py_join :: "string \<Rightarrow> string list \<Rightarrow> string" where
  "py_join sep [] = []"
| "py_join sep [x] = x"
| "py_join sep (x # y # ys) = x @ sep @ py_join sep (y # ys)"

text \<open>\<open>split_on c s\<close> is \<open>s.split(c)\<close> for a one-character separator.\<close>

fun split_on :: "char \<Rightarrow> string \<Rightarrow> string list" where
  "split_on c [] = [[]]"
| "split_on c (x # xs) =
     (if x = c then [] # split_on c xs
      else (case split_on c xs of
              [] \<Rightarrow> [[x]]
            | p # ps \<Rightarrow> (x # p) # ps))"

text \<open>\<open>split1 c s\<close> is \<open>s.split(c, 1)\<close> when \<open>c\<close> occurs in \<open>s\<close>: the text before
  the first \<open>c\<close> and the text after it.\<close>

definition split1 :: "char \<Rightarrow> string \<Rightarrow> string \<times> string" where
  "split1 c s = (takeWhile (\<lambda>x. x \<noteq> c) s, drop 1 (dropWhile (\<lambda>x. x \<noteq> c) s))"

definition startswith :: "string \<Rightarrow> string \<Rightarrow> bool" where
  "startswith s p = (take (length p) s = p)"

subsection \<open>Decimal text of an integer\<close>

fun digits :: "nat \<Rightarrow> string" where
  "digits n = (if n < 10 then [char_of (48 + n)]
               else digits (n div 10) @ [char_of (48 + n mod 10)])"

declare digits.simps [simp del]

definition str_int :: "int \<Rightarrow> string" where
  "str_int i = (if i < 0 then CHR ''-'' # digits (nat (- i)) else digits (nat i))"

subsection \<open>\<open>repr\<close> of a string\<close>

definition hex_digit :: "nat \<Rightarrow> char" where
  "hex_digit n = (if n < 10 then char_of (48 + n) else char_of (87 + n))"

definition is_printable :: "char \<Rightarrow> bool" where
  "is_printable c = (let n = (of_char c :: nat) in
     (32 \<le> n \<and> n < 127) \<or> (161 \<le> n \<and> n \<noteq> 173))"

definition repr_char :: "char \<Rightarrow> char \<Rightarrow> string" where
  "repr_char quote c =
     (if c = quote \<or> c = CHR 0x5C then [CHR 0x5C, c]
      else if c = CHR 0x09 then [CHR 0x5C, CHR ''t'']
      else if c = CHR 0x0A then [CHR 0x5C, CHR ''n'']
      else if c = CHR 0x0D then [CHR 0x5C, CHR ''r'']
      else if is_printable c then [c]
      else [CHR 0x5C, CHR ''x'', hex_digit ((of_char c :: nat) div 16),
            hex_digit ((of_char c :: nat) mod 16)])"

definition repr_str :: "string \<Rightarrow> string" where
  "repr_str s =
     (let quote = (if CHR 0x27 \<in> set s \<and> CHR 0x22 \<notin> set s then CHR 0x22 else CHR 0x27)
      in quote # concat (map (repr_char quote) s) @ [quote])"

section \<open>Decoded JSON values\<close>

text \<open>
  What \<open>json.loads\<close> returns. \<open>PDict\<close> holds the items of the dict in insertion order.
  A float is carried as the text \<open>repr\<close> gives it (\<open>''1.5''\<close>, \<open>''-0.0''\<close>, \<open>''nan''\<close>).
\<close>

datatype pyval =
    PNone
  | PBool bool
  | PInt int
  | PFloat string
  | PStr string
  | PList "pyval list"
  | PDict "(string \<times> pyval) list"

datatype error = AttributeError | TypeError | ValueError | Unmodelled

text \<open>Truth value of an object, as \<open>if x:\<close> and \<open>x or y\<close> test it.\<close>

fun py_truthy :: "pyval \<Rightarrow> bool" where
  "py_truthy PNone = False"
| "py_truthy (PBool b) = b"
| "py_truthy (PInt i) = (i \<noteq> 0)"
| "py_truthy (PFloat r) = (r \<noteq> ''0.0'' \<and> r \<noteq> ''-0.0'')"
| "py_truthy (PStr s) = (s \<noteq> [])"
| "py_truthy (PList xs) = (xs \<noteq> [])"
| "py_truthy (PDict kvs) = (kvs \<noteq> [])"

fun py_repr :: "pyval \<Rightarrow> string" where
  "py_repr PNone = ''None''"
| "py_repr (PBool b) = (if b then ''True'' else ''False'')"
| "py_repr (PInt i) = str_int i"
| "py_repr (PFloat r) = r"
| "py_repr (PStr s) = repr_str s"
| "py_repr (PList xs) = ''['' @ py_join '', '' (map py_repr xs) @ '']''"
| "py_repr (PDict kvs) =
     ''{'' @ py_join '', '' (map (\<lambda>(k, v). repr_str k @ '': '' @ py_repr v) kvs) @ ''}''"

text \<open>\<open>str(x)\<close>: a string is itself, everything else prints as its \<open>repr\<close>.\<close>

definition py_str :: "pyval \<Rightarrow> string" where
  "py_str v = (case v of PStr s \<Rightarrow> s | _ \<Rightarrow> py_repr v)"

text \<open>\<open>d.get(key, default)\<close> on a decoded value: only a dict has \<open>get\<close>.\<close>

definition py_get :: "pyval \<Rightarrow> string \<Rightarrow> pyval \<Rightarrow> error + pyval" where
  "py_get d key dflt =
     (case d of
        PDict kvs \<Rightarrow> (case map_of kvs key of Some v \<Rightarrow> Inr v | None \<Rightarrow> Inr dflt)
      | _ \<Rightarrow> Inl AttributeError)"

text \<open>\<open>x or y\<close>.\<close>

definition py_or :: "pyval \<Rightarrow> pyval \<Rightarrow> pyval" where
  "py_or x y = (if py_truthy x then x else y)"

section \<open>The parsed document\<close>

text \<open>
  The tree \<open>BeautifulSoup(html, "html.parser")\<close> builds: a \<open>Tag\<close> has a name (lower
  case), the list of its classes, its other attributes (each a string) and its children;
  a \<open>NavigableString\<close> is a piece of text that \<open>get_text\<close> counts. Comments, the doctype
  and the contents of scripts are no text for \<open>get_text\<close> and are left out of the tree.
  The document object itself is a \<open>Tag\<close> without classes and attributes.

  An element that a query returned still knows its parents, and a selector with a
  descendant combinator looks at them. So a located element is the node together with
  the classes of all its ancestors.
\<close>

datatype node =
    NavigableString string
  | Tag string "string list" "(string \<times> string) list" "node list"

type_synonym element = "string list \<times> node"

fun node_name :: "node \<Rightarrow> string option" where
  "node_name (NavigableString s) = None"
| "node_name (Tag n cs as ch) = Some n"

fun has_class :: "string \<Rightarrow> node \<Rightarrow> bool" where
  "has_class c (NavigableString s) = False"
| "has_class c (Tag n cs as ch) = (c \<in> set cs)"

text \<open>\<open>el.get(name)\<close>: the attribute's value, or \<open>None\<close>.\<close>

fun get_attr :: "node \<Rightarrow> string \<Rightarrow> string option" where
  "get_attr (NavigableString s) a = None"
| "get_attr (Tag n cs as ch) a = map_of as a"

text \<open>All nodes below a located element in document order, each with the classes of
  its own ancestors.\<close>

fun descendants :: "string list \<Rightarrow> node \<Rightarrow> element list" where
  "descendants anc (NavigableString s) = []"
| "descendants anc (Tag n cs as ch) =
     concat (map (\<lambda>c. (cs @ anc, c) # descendants (cs @ anc) c) ch)"

text \<open>\<open>el.select(sel)\<close> and \<open>el.select_one(sel)\<close>, the selector given as a predicate on a
  located element.\<close>

definition select :: "(element \<Rightarrow> bool) \<Rightarrow> element \<Rightarrow> element list" where
  "select sel el = filter sel (descendants (fst el) (snd el))"

definition select_one :: "(element \<Rightarrow> bool) \<Rightarrow> element \<Rightarrow> element option" where
  "select_one sel el = (case select sel el of [] \<Rightarrow> None | x # _ \<Rightarrow> Some x)"

text \<open>The selectors of the program. \<open>A B\<close> holds of an element matching \<open>B\<close> with some
  ancestor matching \<open>A\<close>.\<close>

definition sel_name :: "string \<Rightarrow> element \<Rightarrow> bool" where
  "sel_name n el = (node_name (snd el) = Some n)"

definition sel_class :: "string \<Rightarrow> element \<Rightarrow> bool" where
  "sel_class c el = has_class c (snd el)"

definition sel_within :: "string \<Rightarrow> string \<Rightarrow> element \<Rightarrow> bool" where
  "sel_within a c el = (a \<in> set (fst el) \<and> has_class c (snd el))"

text \<open>\<open>div.step[data-question-id]\<close>\<close>

definition sel_step :: "element \<Rightarrow> bool" where
  "sel_step el = (node_name (snd el) = Some ''div'' \<and> has_class ''step'' (snd el)
                  \<and> get_attr (snd el) ''data-question-id'' \<noteq> None)"

text \<open>\<open>input[id^='ays-answer-']\<close>\<close>

definition sel_answer_input :: "element \<Rightarrow> bool" where
  "sel_answer_input el = (node_name (snd el) = Some ''input'' \<and>
     (case get_attr (snd el) ''id'' of None \<Rightarrow> False | Some i \<Rightarrow> startswith i ''ays-answer-''))"

text \<open>\<open>label[for='...']\<close> with the input's id written between the quotes. The id is safe
  when it has no quote, backslash or line break: then the selector is the one meant. Any
  other id changes the selector's text itself, which is not modelled.\<close>

definition css_safe :: "string \<Rightarrow> bool" where
  "css_safe i = list_all (\<lambda>c. c \<notin> {CHR 0x27, CHR 0x5C, CHR 0x0A, CHR 0x0D, CHR 0x0C}) i"

definition sel_label_for :: "string \<Rightarrow> element \<Rightarrow> bool" where
  "sel_label_for i el = (node_name (snd el) = Some ''label'' \<and> get_attr (snd el) ''for'' = Some i)"

text \<open>\<open>el.get_text(sep, strip=True)\<close>: every text below the element, stripped, the empty
  ones dropped, joined by \<open>sep\<close>.\<close>

fun node_string :: "node \<Rightarrow> string option" where
  "node_string (NavigableString s) = Some s"
| "node_string (Tag n cs as ch) = None"

definition all_strings :: "element \<Rightarrow> string list" where
  "all_strings el =
     filter (\<lambda>s. s \<noteq> [])
       (map py_strip (List.map_filter (\<lambda>d. node_string (snd d)) (descendants (fst el) (snd el))))"

definition get_text :: "string \<Rightarrow> element \<Rightarrow> string" where
  "get_text sep el = py_join sep (all_strings el)"

section \<open>The configuration embedded in the page\<close>

text \<open>
  \<open>_extract_quiz_options\<close>. Its two library calls are inputs of the model: \<open>matches\<close> is
  what \<open>QUIZ_OPTIONS_RE.findall(html)\<close> returns, the pairs of question id and base64 token
  in page order, and \<open>decode\<close> is \<open>json.loads(base64.b64decode(b64).decode("utf-8"))\<close>,
  \<open>None\<close> when any of the three raises.
\<close>

fun extract_loop ::
  "(string \<Rightarrow> pyval option) \<Rightarrow> (string \<times> string) list \<Rightarrow> (string \<rightharpoonup> pyval) \<Rightarrow> (string \<rightharpoonup> pyval)" where
  "extract_loop decode [] result = result"
| "extract_loop decode ((qid, b64) # ms) result =
     (case decode b64 of
        None \<Rightarrow> extract_loop decode ms result
      | Some data \<Rightarrow> extract_loop decode ms (result(qid \<mapsto> data)))"

definition extract_quiz_options ::
  "(string \<Rightarrow> pyval option) \<Rightarrow> (string \<times> string) list \<Rightarrow> (string \<rightharpoonup> pyval)" where
  "extract_quiz_options decode matches = extract_loop decode matches Map.empty"

section \<open>Resolving an image address\<close>

text \<open>
  \<open>urllib.parse.urljoin\<close> of Python 3.11 with its helpers, on \<open>str\<close> arguments. Two of
  its checks are outside the model. \<open>_checknetloc\<close> raises only for characters that NFKC
  normalisation turns into one of \<open>/?#@:\<close>, and no code point below 256 is one. A host
  in brackets is handed to the \<open>ipaddress\<close> module; the model answers \<open>Unmodelled\<close> for it.
\<close>

definition uses_relative :: "string list" where
  "uses_relative = [[], ''ftp'', ''http'', ''gopher'', ''nntp'', ''imap'',
     ''wais'', ''file'', ''https'', ''shttp'', ''mms'',
     ''prospero'', ''rtsp'', ''rtsps'', ''rtspu'', ''sftp'',
     ''svn'', ''svn+ssh'', ''ws'', ''wss'']"

definition uses_netloc :: "string list" where
  "uses_netloc = [[], ''ftp'', ''http'', ''gopher'', ''nntp'', ''telnet'',
     ''imap'', ''wais'', ''file'', ''mms'', ''https'', ''shttp'',
     ''snews'', ''prospero'', ''rtsp'', ''rtsps'', ''rtspu'', ''rsync'',
     ''svn'', ''svn+ssh'', ''sftp'', ''nfs'', ''git'', ''git+ssh'',
     ''ws'', ''wss'']"

definition uses_params :: "string list" where
  "uses_params = [[], ''ftp'', ''hdl'', ''prospero'', ''http'', ''imap'',
     ''https'', ''shttp'', ''rtsp'', ''rtsps'', ''rtspu'', ''sip'',
     ''sips'', ''mms'', ''sftp'', ''tel'']"

definition ascii_alpha :: "char \<Rightarrow> bool" where
  "ascii_alpha c = (let n = (of_char c :: nat) in (65 \<le> n \<and> n \<le> 90) \<or> (97 \<le> n \<and> n \<le> 122))"

definition scheme_char :: "char \<Rightarrow> bool" where
  "scheme_char c = (let n = (of_char c :: nat) in
     (65 \<le> n \<and> n \<le> 90) \<or> (97 \<le> n \<and> n \<le> 122) \<or> (48 \<le> n \<and> n \<le> 57)
     \<or> c = CHR ''+'' \<or> c = CHR ''-'' \<or> c = CHR ''.'')"

text \<open>\<open>_WHATWG_C0_CONTROL_OR_SPACE\<close> and \<open>_UNSAFE_URL_BYTES_TO_REMOVE\<close>\<close>

definition c0_or_space :: "char \<Rightarrow> bool" where
  "c0_or_space c = ((of_char c :: nat) \<le> 32)"

definition unsafe_byte :: "char \<Rightarrow> bool" where
  "unsafe_byte c = (c = CHR 0x09 \<or> c = CHR 0x0D \<or> c = CHR 0x0A)"

definition remove_unsafe :: "string \<Rightarrow> string" where
  "remove_unsafe s = filter (\<lambda>c. \<not> unsafe_byte c) s"

text \<open>The scheme in front of the first colon, lower-cased, and the text after the colon;
  \<open>None\<close> when \<open>urlsplit\<close> finds no scheme.\<close>

definition find_scheme :: "string \<Rightarrow> (string \<times> string) option" where
  "find_scheme url =
     (let pre = takeWhile (\<lambda>c. c \<noteq> CHR '':'') url in
      if CHR '':'' \<in> set url \<and> pre \<noteq> [] \<and> ascii_alpha (hd url) \<and> list_all scheme_char pre
      then Some (py_lower pre, drop (length pre + 1) url)
      else None)"

definition netloc_delim :: "char \<Rightarrow> bool" where
  "netloc_delim c = (c = CHR ''/'' \<or> c = CHR ''?'' \<or> c = CHR ''#'')"

text \<open>\<open>_splitnetloc(url, 2)\<close>\<close>

definition splitnetloc :: "string \<Rightarrow> string \<times> string" where
  "splitnetloc url =
     (takeWhile (\<lambda>c. \<not> netloc_delim c) (drop 2 url),
      dropWhile (\<lambda>c. \<not> netloc_delim c) (drop 2 url))"

text \<open>The end of \<open>urlsplit\<close>: fragment, then query, are cut off the rest.\<close>

definition split_rest :: "string \<Rightarrow> string \<times> string \<times> string" where
  "split_rest url =
     (let (url1, fragment) = (if CHR ''#'' \<in> set url then split1 CHR ''#'' url else (url, []));
          (url2, query) = (if CHR ''?'' \<in> set url1 then split1 CHR ''?'' url1 else (url1, []))
      in (url2, query, fragment))"

type_synonym split_result = "string \<times> string \<times> string \<times> string \<times> string"

definition urlsplit :: "string \<Rightarrow> string \<Rightarrow> error + split_result" where
  "urlsplit url0 scheme0 =
     (let url1 = remove_unsafe (dropWhile c0_or_space url0);
          scheme1 = remove_unsafe (rev (dropWhile c0_or_space (rev (dropWhile c0_or_space scheme0))));
          (scheme, url2) = (case find_scheme url1 of Some sr \<Rightarrow> sr | None \<Rightarrow> (scheme1, url1))
      in if take 2 url2 = ''//'' then
           (let (netloc, url3) = splitnetloc url2 in
            if (CHR ''['' \<in> set netloc) \<noteq> (CHR '']'' \<in> set netloc) then Inl ValueError
            else if CHR ''['' \<in> set netloc then Inl Unmodelled
            else (let (url4, query, fragment) = split_rest url3
                  in Inr (scheme, netloc, url4, query, fragment)))
         else (let (url4, query, fragment) = split_rest url2
               in Inr (scheme, [], url4, query, fragment)))"

text \<open>\<open>_splitparams\<close>, called on a text that holds a semicolon.\<close>

definition after_last_slash :: "string \<Rightarrow> string" where
  "after_last_slash url = rev (takeWhile (\<lambda>c. c \<noteq> CHR ''/'') (rev url))"

definition splitparams :: "string \<Rightarrow> string \<times> string" where
  "splitparams url =
     (if CHR ''/'' \<in> set url then
        (let last_seg = after_last_slash url; front = take (length url - length last_seg) url in
         if CHR '';'' \<in> set last_seg
         then (front @ takeWhile (\<lambda>c. c \<noteq> CHR '';'') last_seg,
               drop 1 (dropWhile (\<lambda>c. c \<noteq> CHR '';'') last_seg))
         else (url, []))
      else split1 CHR '';'' url)"

type_synonym parse_result = "string \<times> string \<times> string \<times> string \<times> string \<times> string"

definition urlparse :: "string \<Rightarrow> string \<Rightarrow> error + parse_result" where
  "urlparse url scheme0 =
     (case urlsplit url scheme0 of
        Inl e \<Rightarrow> Inl e
      | Inr (scheme, netloc, url1, query, fragment) \<Rightarrow>
          (if scheme \<in> set uses_params \<and> CHR '';'' \<in> set url1
           then (let (url2, params) = splitparams url1
                 in Inr (scheme, netloc, url2, params, query, fragment))
           else Inr (scheme, netloc, url1, [], query, fragment)))"

definition urlunsplit :: "split_result \<Rightarrow> string" where
  "urlunsplit p =
     (case p of (scheme, netloc, url0, query, fragment) \<Rightarrow>
        (let url1 = (if netloc \<noteq> [] \<or> (scheme \<noteq> [] \<and> scheme \<in> set uses_netloc) \<or> take 2 url0 = ''//''
                     then ''//'' @ netloc @ (if url0 \<noteq> [] \<and> take 1 url0 \<noteq> ''/'' then ''/'' @ url0 else url0)
                     else url0);
             url2 = (if scheme \<noteq> [] then scheme @ '':'' @ url1 else url1);
             url3 = (if query \<noteq> [] then url2 @ ''?'' @ query else url2)
         in if fragment \<noteq> [] then url3 @ ''#'' @ fragment else url3))"

definition urlunparse :: "parse_result \<Rightarrow> string" where
  "urlunparse p =
     (case p of (scheme, netloc, url, params, query, fragment) \<Rightarrow>
        urlunsplit (scheme, netloc, (if params \<noteq> [] then url @ '';'' @ params else url),
                    query, fragment))"

text \<open>The loop of \<open>urljoin\<close> over the path segments; \<open>resolved\<close> is \<open>resolved_path\<close>.\<close>

fun resolve_segments :: "string list \<Rightarrow> string list \<Rightarrow> string list" where
  "resolve_segments [] resolved = resolved"
| "resolve_segments (seg # segs) resolved =
     (if seg = ''..'' then resolve_segments segs (butlast resolved)
      else if seg = ''.'' then resolve_segments segs resolved
      else resolve_segments segs (resolved @ [seg]))"

text \<open>\<open>segments[1:-1] = filter(None, segments[1:-1])\<close>\<close>

definition drop_inner_empty :: "string list \<Rightarrow> string list" where
  "drop_inner_empty segments =
     (if length segments < 2 then segments
      else hd segments # filter (\<lambda>s. s \<noteq> []) (butlast (tl segments)) @ [last segments])"

definition urljoin :: "string \<Rightarrow> string \<Rightarrow> error + string" where
  "urljoin base url =
     (if base = [] then Inr url
      else if url = [] then Inr base
      else
        (case urlparse base [] of
           Inl e \<Rightarrow> Inl e
         | Inr (bscheme, bnetloc, bpath, bparams, bquery, bfragment) \<Rightarrow>
        (case urlparse url bscheme of
           Inl e \<Rightarrow> Inl e
         | Inr (scheme, netloc0, path, params, query, fragment) \<Rightarrow>
             if scheme \<noteq> bscheme \<or> scheme \<notin> set uses_relative then Inr url
             else if scheme \<in> set uses_netloc \<and> netloc0 \<noteq> [] then
               Inr (urlunparse (scheme, netloc0, path, params, query, fragment))
             else
               (let netloc = (if scheme \<in> set uses_netloc then bnetloc else netloc0) in
                if path = [] \<and> params = [] then
                  Inr (urlunparse (scheme, netloc, bpath, bparams,
                                   (if query = [] then bquery else query), fragment))
                else
                  (let base_parts0 = split_on CHR ''/'' bpath;
                       base_parts = (if last base_parts0 \<noteq> [] then butlast base_parts0 else base_parts0);
                       segments = (if take 1 path = ''/'' then split_on CHR ''/'' path
                                   else drop_inner_empty (base_parts @ split_on CHR ''/'' path));
                       resolved0 = resolve_segments segments [];
                       resolved_path = (if last segments = ''.'' \<or> last segments = ''..''
                                        then resolved0 @ [[]] else resolved0);
                       joined = py_join ''/'' resolved_path
                   in Inr (urlunparse (scheme, netloc, (if joined = [] then ''/'' else joined),
                                       params, query, fragment)))))))"

section \<open>The question model\<close>

text \<open>The dataclasses \<open>AnswerOption\<close>, \<open>Question\<close> and \<open>Test\<close>. A prefix keeps the field
  names of the three apart.\<close>

record answer_option =
  opt_text :: string
  opt_is_correct :: bool
  opt_images :: "string list"

record question =
  q_text :: string
  q_options :: "answer_option list"
  q_variants :: "string list"
  q_correct_answer :: "nat list"
  q_images :: "string list"

record test =
  t_title :: string
  t_url :: string
  t_questions :: "question list"

section \<open>Parsing one page\<close>

text \<open>
  A \<open>for\<close> loop whose body appends one item (\<open>Some\<close>) or goes on to the next element
  (\<open>None\<close>, the source's \<open>continue\<close>); an exception raised in the body ends the loop.
\<close>

fun for_each :: "('a \<Rightarrow> error + 'b option) \<Rightarrow> 'a list \<Rightarrow> error + 'b list" where
  "for_each body [] = Inr []"
| "for_each body (x # xs) =
     (case body x of
        Inl e \<Rightarrow> Inl e
      | Inr r \<Rightarrow>
          (case for_each body xs of
             Inl e \<Rightarrow> Inl e
           | Inr rs \<Rightarrow> Inr (case r of None \<Rightarrow> rs | Some y \<Rightarrow> y # rs)))"

text \<open>The loop over \<open>el.select("img")\<close>: an image with a non-empty \<open>src\<close> gives
  \<open>urljoin(url, src)\<close>.\<close>

definition image_url :: "string \<Rightarrow> element \<Rightarrow> error + string option" where
  "image_url url img_el =
     (case get_attr (snd img_el) ''src'' of
        None \<Rightarrow> Inr None
      | Some src \<Rightarrow>
          if src = [] then Inr None
          else (case urljoin url src of Inl e \<Rightarrow> Inl e | Inr u \<Rightarrow> Inr (Some u)))"

definition element_images :: "string \<Rightarrow> element \<Rightarrow> error + string list" where
  "element_images url el = for_each (image_url url) (select (sel_name ''img'') el)"

text \<open>\<open>cfg.get("question_type") or step.get("data-type") or "radio"\<close>\<close>

definition attr_value :: "string option \<Rightarrow> pyval" where
  "attr_value a = (case a of None \<Rightarrow> PNone | Some s \<Rightarrow> PStr s)"

definition effective_type :: "pyval \<Rightarrow> element \<Rightarrow> error + pyval" where
  "effective_type cfg step =
     (case py_get cfg ''question_type'' PNone of
        Inl e \<Rightarrow> Inl e
      | Inr t \<Rightarrow>
          Inr (py_or (py_or t (attr_value (get_attr (snd step) ''data-type''))) (PStr ''radio'')))"

subsection \<open>Radio and checkbox\<close>

text \<open>\<open>str(v).lower() in ("1", "true")\<close>\<close>

definition flag_of_value :: "pyval \<Rightarrow> bool" where
  "flag_of_value v = (py_lower (py_str v) = ''1'' \<or> py_lower (py_str v) = ''true'')"

text \<open>The flag of one answer: \<open>False\<close> unless \<open>correct_map\<close> is truthy, and then the flag
  of \<open>correct_map.get(answer_id, "0")\<close>.\<close>

definition answer_is_correct :: "pyval \<Rightarrow> string \<Rightarrow> error + bool" where
  "answer_is_correct correct_map answer_id =
     (if py_truthy correct_map then
        (case py_get correct_map answer_id (PStr ''0'') of
           Inl e \<Rightarrow> Inl e
         | Inr v \<Rightarrow> Inr (flag_of_value v))
      else Inr False)"

text \<open>Text and images of the label, both empty when there is no label.\<close>

definition label_content :: "string \<Rightarrow> element option \<Rightarrow> error + (string \<times> string list)" where
  "label_content url label_el =
     (case label_el of
        None \<Rightarrow> Inr ([], [])
      | Some l \<Rightarrow>
          (case element_images url l of
             Inl e \<Rightarrow> Inl e
           | Inr img_urls \<Rightarrow> Inr (get_text '' '' l, img_urls)))"

definition or_empty :: "string option \<Rightarrow> string" where
  "or_empty a = (case a of None \<Rightarrow> [] | Some s \<Rightarrow> s)"

text \<open>The body of the loop over the answer fields.\<close>

definition parse_field :: "string \<Rightarrow> pyval \<Rightarrow> element \<Rightarrow> error + answer_option option" where
  "parse_field url correct_map field =
     (case select_one sel_answer_input field of
        None \<Rightarrow> Inr None
      | Some input_el \<Rightarrow>
          (let answer_id = or_empty (get_attr (snd input_el) ''value'');
               input_id = or_empty (get_attr (snd input_el) ''id'')
           in if \<not> css_safe input_id then Inl Unmodelled
              else
                (case label_content url (select_one (sel_label_for input_id) field) of
                   Inl e \<Rightarrow> Inl e
                 | Inr (text, img_urls) \<Rightarrow>
                     (case answer_is_correct correct_map answer_id of
                        Inl e \<Rightarrow> Inl e
                      | Inr is_correct \<Rightarrow>
                          Inr (Some \<lparr>opt_text = text, opt_is_correct = is_correct,
                                     opt_images = img_urls\<rparr>)))))"

definition answer_fields :: "element \<Rightarrow> element list" where
  "answer_fields step = select (sel_within ''ays-quiz-answers'' ''ays-field'') step"

subsection \<open>Short text\<close>

definition short_text_options :: "pyval \<Rightarrow> answer_option list" where
  "short_text_options ans =
     (if py_truthy ans
      then [\<lparr>opt_text = py_str ans, opt_is_correct = True, opt_images = []\<rparr>]
      else [])"

subsection \<open>Matching\<close>

text \<open>
  \<open>{v: k for k, v in ans_map.items()}\<close>. A list or a dict as value cannot be a key and
  raises \<open>TypeError\<close>. The dict is only ever asked for a \<open>str\<close>, which equals no number,
  boolean or \<open>None\<close>, so the model keeps the string values alone.
\<close>

fun invert_items :: "(string \<times> pyval) list \<Rightarrow> (string \<rightharpoonup> string) \<Rightarrow> error + (string \<rightharpoonup> string)" where
  "invert_items [] inv_map = Inr inv_map"
| "invert_items ((k, v) # kvs) inv_map =
     (case v of
        PList xs \<Rightarrow> Inl TypeError
      | PDict d \<Rightarrow> Inl TypeError
      | PStr s \<Rightarrow> invert_items kvs (inv_map(s \<mapsto> k))
      | _ \<Rightarrow> invert_items kvs inv_map)"

definition inv_ans_map :: "pyval \<Rightarrow> error + (string \<rightharpoonup> string)" where
  "inv_ans_map ans_map =
     (case ans_map of
        PDict kvs \<Rightarrow> invert_items kvs Map.empty
      | _ \<Rightarrow> Inl AttributeError)"

text \<open>The body of the loop over the matching pairs.\<close>

definition parse_pair :: "string \<Rightarrow> (string \<rightharpoonup> string) \<Rightarrow> element \<Rightarrow> error + answer_option option" where
  "parse_pair url inv_map opt =
     (case select_one (sel_class ''ays-matching-field-choice'') opt of
        None \<Rightarrow> Inr None
      | Some choice_el \<Rightarrow>
          (case select_one (sel_class ''ays-matching-field-match'') opt of
             None \<Rightarrow> Inr None
           | Some match_el \<Rightarrow>
               (case element_images url choice_el of
                  Inl e \<Rightarrow> Inl e
                | Inr img_urls \<Rightarrow>
                    (let choice_text = get_text '' '' choice_el;
                         answer_id = or_empty (get_attr (snd match_el) ''data-answer-id'');
                         text = (case inv_map answer_id of
                                   Some pos \<Rightarrow> choice_text @ '' -> '' @ pos
                                 | None \<Rightarrow> choice_text)
                     in Inr (Some \<lparr>opt_text = text, opt_is_correct = True,
                                   opt_images = img_urls\<rparr>)))))"

definition matching_pairs :: "element \<Rightarrow> element list" where
  "matching_pairs step = select (sel_within ''ays-matching-field'' ''ays-matching-field-option'') step"

subsection \<open>One question block\<close>

text \<open>The options of a block, by its effective type. \<open>cfg\<close> is a dict here: the lookup
  of the type has passed.\<close>

definition extract_options :: "string \<Rightarrow> pyval \<Rightarrow> pyval \<Rightarrow> element \<Rightarrow> error + answer_option list" where
  "extract_options url cfg q_type step =
     (if q_type = PStr ''radio'' \<or> q_type = PStr ''checkbox'' then
        (case py_get cfg ''question_answer'' (PDict []) of
           Inl e \<Rightarrow> Inl e
         | Inr correct_map \<Rightarrow> for_each (parse_field url correct_map) (answer_fields step))
      else if q_type = PStr ''short_text'' then
        (case py_get cfg ''question_answer'' (PStr []) of
           Inl e \<Rightarrow> Inl e
         | Inr ans \<Rightarrow> Inr (short_text_options ans))
      else if q_type = PStr ''matching'' then
        (case py_get cfg ''question_answer'' (PDict []) of
           Inl e \<Rightarrow> Inl e
         | Inr ans_map \<Rightarrow>
             (case inv_ans_map ans_map of
                Inl e \<Rightarrow> Inl e
              | Inr inv_map \<Rightarrow> for_each (parse_pair url inv_map) (matching_pairs step)))
      else Inr [])"

text \<open>\<open>variants\<close>, \<open>correct_idx\<close> and the \<open>Question\<close> built from them.\<close>

definition correct_idx :: "answer_option list \<Rightarrow> nat list" where
  "correct_idx options = map fst (filter (\<lambda>(i, opt). opt_is_correct opt) (enumerate 0 options))"

definition assemble :: "string \<Rightarrow> string list \<Rightarrow> answer_option list \<Rightarrow> question" where
  "assemble text imgs options =
     \<lparr>q_text = text, q_options = options, q_variants = map opt_text options,
      q_correct_answer = correct_idx options, q_images = imgs\<rparr>"

text \<open>\<open>quiz_options.get(qid, {})\<close>\<close>

definition lookup_cfg :: "(string \<rightharpoonup> pyval) \<Rightarrow> string option \<Rightarrow> pyval" where
  "lookup_cfg quiz_options qid =
     (case qid of
        None \<Rightarrow> PDict []
      | Some q \<Rightarrow> (case quiz_options q of None \<Rightarrow> PDict [] | Some cfg \<Rightarrow> cfg))"

text \<open>The body of the loop over the question blocks.\<close>

definition parse_step :: "string \<Rightarrow> (string \<rightharpoonup> pyval) \<Rightarrow> element \<Rightarrow> error + question" where
  "parse_step url quiz_options step =
     (let cfg = lookup_cfg quiz_options (get_attr (snd step) ''data-question-id'') in
      case effective_type cfg step of
        Inl e \<Rightarrow> Inl e
      | Inr q_type \<Rightarrow>
          (let q_block = select_one (sel_class ''ays_quiz_question'') step;
               text = (case q_block of None \<Rightarrow> [] | Some b \<Rightarrow> get_text '' '' b)
           in case (case q_block of None \<Rightarrow> Inr [] | Some b \<Rightarrow> element_images url b) of
                Inl e \<Rightarrow> Inl e
              | Inr question_images \<Rightarrow>
                  (case extract_options url cfg q_type step of
                     Inl e \<Rightarrow> Inl e
                   | Inr options \<Rightarrow> Inr (assemble text question_images options))))"

subsection \<open>The page\<close>

fun parse_steps :: "string \<Rightarrow> (string \<rightharpoonup> pyval) \<Rightarrow> element list \<Rightarrow> error + question list" where
  "parse_steps url quiz_options [] = Inr []"
| "parse_steps url quiz_options (step # steps) =
     (case parse_step url quiz_options step of
        Inl e \<Rightarrow> Inl e
      | Inr q \<Rightarrow>
          (case parse_steps url quiz_options steps of
             Inl e \<Rightarrow> Inl e
           | Inr qs \<Rightarrow> Inr (q # qs)))"

text \<open>
  \<open>_parse_quiz_from_html\<close>. The page text enters through its two readings: \<open>soup\<close>, the
  parsed document, and \<open>matches\<close>, the configuration assignments found in the raw text.
\<close>

definition parse_quiz_from_html ::
  "(string \<Rightarrow> pyval option) \<Rightarrow> string \<Rightarrow> node \<Rightarrow> (string \<times> string) list \<Rightarrow> error + test" where
  "parse_quiz_from_html decode url soup matches =
     (let title = (case select_one (sel_name ''h1'') ([], soup) of
                     None \<Rightarrow> url
                   | Some title_el \<Rightarrow> get_text [] title_el);
          quiz_options = extract_quiz_options decode matches
      in case parse_steps url quiz_options (select sel_step ([], soup)) of
           Inl e \<Rightarrow> Inl e
         | Inr questions \<Rightarrow> Inr \<lparr>t_title = title, t_url = url, t_questions = questions\<rparr>)"

section \<open>Reading a block\<close>

text \<open>What the properties below speak about: the answer identifiers a block offers, the
  pairs it offers, and what the configuration says about them.\<close>

text \<open>The answer identifier of a field: the \<open>value\<close> of its input control, when it has
  one.\<close>

definition field_answer_id :: "element \<Rightarrow> string option" where
  "field_answer_id field =
     map_option (\<lambda>input_el. or_empty (get_attr (snd input_el) ''value''))
       (select_one sel_answer_input field)"

text \<open>The identifiers of the fields of a block that have an input control, in document
  order.\<close>

definition answer_ids :: "element \<Rightarrow> string list" where
  "answer_ids step = List.map_filter field_answer_id (answer_fields step)"

text \<open>The value the mapping holds for an identifier says ``correct''.\<close>

definition mapped_correct :: "(string \<times> pyval) list \<Rightarrow> string \<Rightarrow> bool" where
  "mapped_correct m answer_id =
     (case map_of m answer_id of None \<Rightarrow> False | Some v \<Rightarrow> flag_of_value v)"

text \<open>The two halves of a matching pair, when it has both.\<close>

definition pair_halves :: "element \<Rightarrow> (element \<times> element) option" where
  "pair_halves opt =
     (case select_one (sel_class ''ays-matching-field-choice'') opt of
        None \<Rightarrow> None
      | Some choice_el \<Rightarrow>
          (case select_one (sel_class ''ays-matching-field-match'') opt of
             None \<Rightarrow> None
           | Some match_el \<Rightarrow> Some (choice_el, match_el)))"

definition complete_pairs :: "element \<Rightarrow> (element \<times> element) list" where
  "complete_pairs step = List.map_filter pair_halves (matching_pairs step)"

text \<open>The position the configuration gives an answer identifier: the key of the last
  item whose value is that identifier.\<close>

definition position_of :: "(string \<times> pyval) list \<Rightarrow> string \<Rightarrow> string option" where
  "position_of kvs answer_id =
     (case filter (\<lambda>(k, v). v = PStr answer_id) kvs of
        [] \<Rightarrow> None
      | x # xs \<Rightarrow> Some (fst (last (x # xs))))"

definition pair_text :: "(string \<times> pyval) list \<Rightarrow> element \<times> element \<Rightarrow> string" where
  "pair_text kvs halves =
     (let choice_text = get_text '' '' (fst halves);
          answer_id = or_empty (get_attr (snd (snd halves)) ''data-answer-id'')
      in case position_of kvs answer_id of
           Some pos \<Rightarrow> choice_text @ '' -> '' @ pos
         | None \<Rightarrow> choice_text)"

text \<open>The configuration of a block and the type it is parsed as.\<close>

definition block_cfg :: "(string \<rightharpoonup> pyval) \<Rightarrow> element \<Rightarrow> pyval" where
  "block_cfg quiz_options step = lookup_cfg quiz_options (get_attr (snd step) ''data-question-id'')"

definition block_type :: "(string \<rightharpoonup> pyval) \<Rightarrow> element \<Rightarrow> error + pyval" where
  "block_type quiz_options step = effective_type (block_cfg quiz_options step) step"

section \<open>Example pages\<close>

definition page_url :: string where
  "page_url = ''https://info-master.uz/test/''"

definition answer_field :: "string \<Rightarrow> node list \<Rightarrow> node" where
  "answer_field i label_children =
     Tag ''div'' [''ays-field''] []
       [Tag ''input'' [] [(''type'', ''radio''), (''id'', ''ays-answer-'' @ i), (''value'', i)] [],
        Tag ''label'' [] [(''for'', ''ays-answer-'' @ i)] label_children]"

text \<open>A radio block with three answers, identifiers 1, 2 and 3.\<close>

definition radio_block :: element where
  "radio_block =
     ([], Tag ''div'' [''step''] [(''data-question-id'', ''52455'')]
       [Tag ''div'' [''ays_quiz_question''] []
          [Tag ''p'' [] [] [NavigableString ''Which one?'']],
        Tag ''div'' [''ays-quiz-answers''] []
          [answer_field ''1'' [NavigableString ''A''],
           answer_field ''2'' [NavigableString ''B''],
           answer_field ''3'' [NavigableString ''C'']]])"

definition radio_answers :: "(string \<times> pyval) list" where
  "radio_answers = [(''1'', PStr ''0''), (''2'', PStr ''1''), (''3'', PStr ''0'')]"

definition radio_config :: pyval where
  "radio_config =
     PDict [(''question_type'', PStr ''radio''), (''question_answer'', PDict radio_answers)]"

definition radio_options :: "string \<rightharpoonup> pyval" where
  "radio_options = [''52455'' \<mapsto> radio_config]"

text \<open>The same block under a mapping with two truthy values, one of them the JSON
  \<open>true\<close>.\<close>

definition two_answers :: "(string \<times> pyval) list" where
  "two_answers = [(''1'', PStr ''1''), (''2'', PBool True), (''3'', PStr ''0'')]"

definition two_options :: "string \<rightharpoonup> pyval" where
  "two_options = [''52455'' \<mapsto>
     PDict [(''question_type'', PStr ''radio''), (''question_answer'', PDict two_answers)]]"

text \<open>A matching block: ``Cat'' beside answer \<open>b3\<close>, then ``Dog'' beside answer \<open>a7\<close>.\<close>

definition matching_pair :: "string \<Rightarrow> string \<Rightarrow> node" where
  "matching_pair choice answer_id =
     Tag ''div'' [''ays-matching-field-option''] []
       [Tag ''div'' [''ays-matching-field-choice''] [] [NavigableString choice],
        Tag ''div'' [''ays-matching-field-match''] [(''data-answer-id'', answer_id)] []]"

definition matching_block :: element where
  "matching_block =
     ([], Tag ''div'' [''step''] [(''data-question-id'', ''52456''), (''data-type'', ''matching'')]
       [Tag ''div'' [''ays-matching-field''] []
          [matching_pair ''Cat'' ''b3'', matching_pair ''Dog'' ''a7'']])"

definition matching_answers :: "(string \<times> pyval) list" where
  "matching_answers = [(''1'', PStr ''a7''), (''2'', PStr ''b3'')]"

definition matching_options :: "string \<rightharpoonup> pyval" where
  "matching_options = [''52456'' \<mapsto>
     PDict [(''question_type'', PStr ''matching''), (''question_answer'', PDict matching_answers)]]"

text \<open>A pair without its right half.\<close>

definition half_pair :: element where
  "half_pair =
     ([''ays-matching-field'', ''step''],
      Tag ''div'' [''ays-matching-field-option''] []
        [Tag ''div'' [''ays-matching-field-choice''] [] [NavigableString ''Bird'']])"

text \<open>A field whose label holds a second label with the caption of its image.\<close>

definition caption_field :: element where
  "caption_field =
     ([''ays-quiz-answers'', ''step''],
      answer_field ''1''
        [NavigableString ''Paris'',
         Tag ''label'' [''ays_answer_image''] []
           [Tag ''img'' [] [(''src'', ''/img/paris.png'')] [], NavigableString ''Eiffel tower'']])"

text \<open>A field with an input control and no label, and a field with neither.\<close>

definition bare_field :: element where
  "bare_field =
     ([''ays-quiz-answers'', ''step''],
      Tag ''div'' [''ays-field''] []
        [Tag ''input'' [] [(''id'', ''ays-answer-2''), (''value'', ''2'')] []])"

definition empty_field :: element where
  "empty_field = ([''ays-quiz-answers'', ''step''], Tag ''div'' [''ays-field''] [] [])"

text \<open>A short-text block and a configuration for it with the answer \<open>ans\<close>.\<close>

definition short_block :: element where
  "short_block =
     ([], Tag ''div'' [''step''] [(''data-question-id'', ''52457'')]
       [Tag ''div'' [''ays_quiz_question''] [] [NavigableString ''Capital of France?'']])"

definition short_config :: "string \<Rightarrow> pyval" where
  "short_config ans =
     PDict [(''question_type'', PStr ''short_text''), (''question_answer'', PStr ans)]"

definition short_options :: "string \<Rightarrow> string \<rightharpoonup> pyval" where
  "short_options ans = [''52457'' \<mapsto> short_config ans]"

text \<open>
  A page with the three blocks. Its text assigns a configuration to each: the token of
  the radio block and the token of the short-text block (with the empty answer) decode,
  the token of the matching block is cut off in the middle of its JSON text.
\<close>

definition example_page :: node where
  "example_page =
     Tag ''[document]'' [] []
       [Tag ''h1'' [] [] [NavigableString ''Informatika''],
        snd radio_block, snd matching_block, snd short_block]"

definition radio_token :: string where
  "radio_token =
     ''eyJxdWVzdGlvbl90eXBlIjoicmFkaW8iLCJxdWVzdGlvbl9hbnN3ZXIiOnsiMSI6IjAiLCIyIjoiMSIsIjMiOiIwIn19''"

definition broken_token :: string where
  "broken_token = ''eyJxdWVzdGlvbl90eXBlIjoicmFkaW8iLCJxdWVzdGlvbl9hbnM=''"

definition short_token :: string where
  "short_token = ''eyJxdWVzdGlvbl90eXBlIjoic2hvcnRfdGV4dCIsInF1ZXN0aW9uX2Fuc3dlciI6IiJ9''"

definition example_decode :: "string \<Rightarrow> pyval option" where
  "example_decode b64 =
     (if b64 = radio_token then Some radio_config
      else if b64 = short_token then Some (short_config [])
      else None)"

definition example_matches :: "(string \<times> string) list" where
  "example_matches =
     [(''52455'', radio_token), (''52456'', broken_token), (''52457'', short_token)]"

text \<open>The questions the page gives.\<close>

definition radio_question :: question where
  "radio_question =
     \<lparr>q_text = ''Which one?'',
      q_options = [\<lparr>opt_text = ''A'', opt_is_correct = False, opt_images = []\<rparr>,
                   \<lparr>opt_text = ''B'', opt_is_correct = True, opt_images = []\<rparr>,
                   \<lparr>opt_text = ''C'', opt_is_correct = False, opt_images = []\<rparr>],
      q_variants = [''A'', ''B'', ''C''],
      q_correct_answer = [1],
      q_images = []\<rparr>"

definition bare_matching_question :: question where
  "bare_matching_question =
     \<lparr>q_text = [],
      q_options = [\<lparr>opt_text = ''Cat'', opt_is_correct = True, opt_images = []\<rparr>,
                   \<lparr>opt_text = ''Dog'', opt_is_correct = True, opt_images = []\<rparr>],
      q_variants = [''Cat'', ''Dog''],
      q_correct_answer = [0, 1],
      q_images = []\<rparr>"

definition empty_short_question :: question where
  "empty_short_question =
     \<lparr>q_text = ''Capital of France?'', q_options = [], q_variants = [],
      q_correct_answer = [], q_images = []\<rparr>"

definition example_test :: test where
  "example_test =
     \<lparr>t_title = ''Informatika'', t_url = page_url,
      t_questions = [radio_question, bare_matching_question, empty_short_question]\<rparr>"

text \<open>The radio block under the mapping with two truthy values.\<close>

definition two_question :: question where
  "two_question =
     \<lparr>q_text = ''Which one?'',
      q_options = [\<lparr>opt_text = ''A'', opt_is_correct = True, opt_images = []\<rparr>,
                   \<lparr>opt_text = ''B'', opt_is_correct = True, opt_images = []\<rparr>,
                   \<lparr>opt_text = ''C'', opt_is_correct = False, opt_images = []\<rparr>],
      q_variants = [''A'', ''B'', ''C''],
      q_correct_answer = [0, 1],
      q_images = []\<rparr>"

text \<open>The matching block under its configuration.\<close>

definition matching_question :: question where
  "matching_question =
     \<lparr>q_text = [],
      q_options = [\<lparr>opt_text = ''Cat -> 2'', opt_is_correct = True, opt_images = []\<rparr>,
                   \<lparr>opt_text = ''Dog -> 1'', opt_is_correct = True, opt_images = []\<rparr>],
      q_variants = [''Cat -> 2'', ''Dog -> 1''],
      q_correct_answer = [0, 1],
      q_images = []\<rparr>"

section \<open>Parsed addresses\<close>





text \<open>The radio block on a page that assigns it no configuration.\<close>

definition plain_radio_question :: question where
  "plain_radio_question =
     \<lparr>q_text = ''Which one?'',
      q_options = [\<lparr>opt_text = ''A'', opt_is_correct = False, opt_images = []\<rparr>,
                   \<lparr>opt_text = ''B'', opt_is_correct = False, opt_images = []\<rparr>,
                   \<lparr>opt_text = ''C'', opt_is_correct = False, opt_images = []\<rparr>],
      q_variants = [''A'', ''B'', ''C''],
      q_correct_answer = [],
      q_images = []\<rparr>"

section \<open>Loops and indices\<close>

lemma for_each_skip:
  "body x = Inr None \<Longrightarrow> for_each body (xs @ x # ys) = for_each body (xs @ ys)"
  by (induction xs) (auto split: sum.splits)

lemma zip_upt_filter_fst:
  "map fst (filter (\<lambda>(i, x). P x) (zip [0..<length xs] xs)) =
   filter (\<lambda>i. P (xs ! i)) [0..<length xs]"
proof (induction xs rule: rev_induct)
  case Nil
  then show ?case by simp
next
  case (snoc x xs)
  have same: "filter (\<lambda>i. P ((xs @ [x]) ! i)) [0..<length xs] =
              filter (\<lambda>i. P (xs ! i)) [0..<length xs]"
    by (rule filter_cong) (auto simp: nth_append)
  have "zip [0..<length (xs @ [x])] (xs @ [x]) = zip [0..<length xs] xs @ [(length xs, x)]"
    by simp
  then show ?case
    using snoc.IH same by simp
qed

lemma correct_idx_eq:
  "correct_idx os = filter (\<lambda>i. opt_is_correct (os ! i)) [0..<length os]"
  using zip_upt_filter_fst [of opt_is_correct os]
  by (simp add: correct_idx_def enumerate_eq_zip)

lemma sorted_correct_idx: "sorted_wrt (<) (correct_idx os)"
  by (simp add: correct_idx_eq sorted_wrt_filter)

lemma set_correct_idx:
  "set (correct_idx os) = {i. i < length os \<and> opt_is_correct (os ! i)}"
  by (auto simp: correct_idx_eq)

lemma length_correct_idx:
  "length (correct_idx os) = length (filter opt_is_correct os)"
proof -
  have "map ((!) os) (correct_idx os) = filter opt_is_correct (map ((!) os) [0..<length os])"
    by (simp add: correct_idx_eq filter_map comp_def)
  then have "length (map ((!) os) (correct_idx os)) = length (filter opt_is_correct os)"
    by (simp add: map_nth)
  then show ?thesis by simp
qed

section \<open>The parts of a parsed block\<close>

lemma parse_step_Inr:
  assumes "parse_step url qo step = Inr q"
  shows "\<exists>t txt imgs options.
           block_type qo step = Inr t
         \<and> extract_options url (block_cfg qo step) t step = Inr options
         \<and> q = assemble txt imgs options"
  using assms
  by (auto simp: parse_step_def block_type_def block_cfg_def Let_def split: sum.splits)

lemma parse_steps_member:
  "parse_steps url qo steps = Inr qs \<Longrightarrow> q \<in> set qs \<Longrightarrow>
   \<exists>step \<in> set steps. parse_step url qo step = Inr q"
  by (induction steps arbitrary: qs) (auto split: sum.splits)

lemma parse_quiz_member:
  assumes "parse_quiz_from_html decode url soup matches = Inr t" and "q \<in> set (t_questions t)"
  shows "\<exists>step \<in> set (select sel_step ([], soup)).
           parse_step url (extract_quiz_options decode matches) step = Inr q"
proof -
  from assms(1) obtain qs where
    qs: "parse_steps url (extract_quiz_options decode matches) (select sel_step ([], soup)) = Inr qs"
    and t: "t_questions t = qs"
    by (auto simp: parse_quiz_from_html_def Let_def split: sum.splits)
  from parse_steps_member [OF qs] assms(2) t show ?thesis by simp
qed

section \<open>Radio and checkbox blocks\<close>

lemma flag_zero: "\<not> flag_of_value (PStr ''0'')"
  by code_simp

lemma answer_is_correct_dict:
  "m \<noteq> [] \<Longrightarrow> answer_is_correct (PDict m) a = Inr (mapped_correct m a)"
  by (simp add: answer_is_correct_def py_get_def mapped_correct_def flag_zero split: option.splits)

lemma answer_is_correct_falsy:
  "\<not> py_truthy cm \<Longrightarrow> answer_is_correct cm a = Inr False"
  by (simp add: answer_is_correct_def)

lemma answer_is_correct_any_dict:
  "answer_is_correct (PDict m) a = Inr (mapped_correct m a)"
  by (cases "m = []") (simp_all add: answer_is_correct_dict answer_is_correct_falsy mapped_correct_def)

lemma parse_field_no_input:
  "select_one sel_answer_input field = None \<Longrightarrow> parse_field url cm field = Inr None"
  by (simp add: parse_field_def)

lemma parse_field_input:
  assumes "parse_field url cm field = Inr r" and "field_answer_id field = Some a"
  shows "\<exists>opt. r = Some opt \<and> answer_is_correct cm a = Inr (opt_is_correct opt)"
  using assms
  by (auto simp: parse_field_def field_answer_id_def Let_def split: option.splits sum.splits if_splits)

lemma fields_flags:
  "for_each (parse_field url cm) flds = Inr options \<Longrightarrow>
   map (\<lambda>opt. Inr (opt_is_correct opt)) options =
   map (answer_is_correct cm) (List.map_filter field_answer_id flds)"
proof (induction flds arbitrary: options)
  case Nil
  then show ?case by (simp add: List.map_filter_simps)
next
  case (Cons f fs)
  from Cons.prems obtain r rs where r: "parse_field url cm f = Inr r"
    and rs: "for_each (parse_field url cm) fs = Inr rs"
    and options: "options = (case r of None \<Rightarrow> rs | Some y \<Rightarrow> y # rs)"
    by (auto split: sum.splits)
  show ?case
  proof (cases "field_answer_id f")
    case None
    then have "select_one sel_answer_input f = None"
      by (simp add: field_answer_id_def)
    with r have "r = None"
      by (simp add: parse_field_no_input)
    with None Cons.IH [OF rs] options show ?thesis
      by (simp add: List.map_filter_simps)
  next
    case (Some a)
    from parse_field_input [OF r Some] obtain opt where
      "r = Some opt" and "answer_is_correct cm a = Inr (opt_is_correct opt)"
      by blast
    with Some Cons.IH [OF rs] options show ?thesis
      by (simp add: List.map_filter_simps)
  qed
qed

lemma map_Inr_eq:
  "map (\<lambda>x. Inr (f x)) xs = map (\<lambda>y. Inr (g y)) ys \<Longrightarrow> map f xs = map g ys"
  by (induction xs arbitrary: ys) auto

lemma dict_fields_flags:
  assumes "for_each (parse_field url (PDict m)) flds = Inr options"
  shows "map opt_is_correct options = map (mapped_correct m) (List.map_filter field_answer_id flds)"
proof -
  have "map (\<lambda>opt. Inr (opt_is_correct opt) :: error + bool) options =
        map (\<lambda>a. Inr (mapped_correct m a)) (List.map_filter field_answer_id flds)"
    using fields_flags [OF assms] by (simp add: answer_is_correct_any_dict)
  then show ?thesis
    by (rule map_Inr_eq)
qed

lemma choice_options:
  assumes "extract_options url cfg t step = Inr options"
    and "t = PStr ''radio'' \<or> t = PStr ''checkbox''"
    and "py_get cfg ''question_answer'' (PDict []) = Inr cm"
  shows "for_each (parse_field url cm) (answer_fields step) = Inr options"
  using assms by (auto simp: extract_options_def)

lemma length_filter_map: "length (filter P (map f xs)) = length (filter (P \<circ> f) xs)"
  by (induction xs) auto

lemma choice_block_flags:
  assumes "parse_step url qo step = Inr q"
    and "block_type qo step = Inr t"
    and "t = PStr ''radio'' \<or> t = PStr ''checkbox''"
    and "py_get (block_cfg qo step) ''question_answer'' (PDict []) = Inr (PDict m)"
  shows "map opt_is_correct (q_options q) = map (mapped_correct m) (answer_ids step)"
    and "length (q_correct_answer q) = length (filter (mapped_correct m) (answer_ids step))"
proof -
  from parse_step_Inr [OF assms(1)] assms(2) obtain body imgs options where
    ex: "extract_options url (block_cfg qo step) t step = Inr options"
    and q: "q = assemble body imgs options"
    by auto
  from choice_options [OF ex assms(3) assms(4)]
  have flags: "map opt_is_correct options = map (mapped_correct m) (answer_ids step)"
    unfolding answer_ids_def by (rule dict_fields_flags)
  then show "map opt_is_correct (q_options q) = map (mapped_correct m) (answer_ids step)"
    by (simp add: q assemble_def)
  have "length (filter opt_is_correct options) = length (filter (\<lambda>b. b) (map opt_is_correct options))"
    by (simp add: length_filter_map comp_def)
  also have "\<dots> = length (filter (mapped_correct m) (answer_ids step))"
    by (simp add: flags length_filter_map comp_def)
  finally show "length (q_correct_answer q) = length (filter (mapped_correct m) (answer_ids step))"
    by (simp add: q assemble_def length_correct_idx)
qed

lemma falsy_fields_flags:
  assumes "for_each (parse_field url cm) flds = Inr options" and "\<not> py_truthy cm"
  shows "\<forall>opt \<in> set options. \<not> opt_is_correct opt"
proof -
  have "map (\<lambda>opt. Inr (opt_is_correct opt) :: error + bool) options =
        map (\<lambda>a. Inr False) (List.map_filter field_answer_id flds)"
    using fields_flags [OF assms(1)] assms(2) by (simp add: answer_is_correct_falsy)
  then have "map opt_is_correct options = map (\<lambda>a. False) (List.map_filter field_answer_id flds)"
    by (rule map_Inr_eq)
  then have "set (map opt_is_correct options) \<subseteq> {False}"
    by auto
  then show ?thesis by auto
qed

lemma correct_idx_none:
  "\<forall>opt \<in> set options. \<not> opt_is_correct opt \<Longrightarrow> correct_idx options = []"
  by (simp add: correct_idx_eq filter_empty_conv)

lemma mapped_correct_item:
  "mapped_correct m a \<Longrightarrow> \<exists>v. (a, v) \<in> set m \<and> flag_of_value v"
  by (auto simp: mapped_correct_def split: option.splits dest: map_of_SomeD)

lemma at_most_one_marked:
  assumes "length (filter (\<lambda>(k, v). flag_of_value v) m) \<le> 1"
    and "mapped_correct m a" and "mapped_correct m b"
  shows "a = b"
proof -
  from mapped_correct_item [OF assms(2)] obtain v where v: "(a, v) \<in> set (filter (\<lambda>(k, v). flag_of_value v) m)"
    by auto
  from mapped_correct_item [OF assms(3)] obtain w where w: "(b, w) \<in> set (filter (\<lambda>(k, v). flag_of_value v) m)"
    by auto
  from assms(1) have "length (filter (\<lambda>(k, v). flag_of_value v) m) = 0 \<or> length (filter (\<lambda>(k, v). flag_of_value v) m) = 1"
    by linarith
  then obtain x where "set (filter (\<lambda>(k, v). flag_of_value v) m) \<subseteq> {x}"
    by (cases "filter (\<lambda>(k, v). flag_of_value v) m") auto
  with v w show ?thesis by auto
qed

lemma distinct_filter_le_one:
  assumes "distinct xs" and "\<And>a b. a \<in> set xs \<Longrightarrow> b \<in> set xs \<Longrightarrow> P a \<Longrightarrow> P b \<Longrightarrow> a = b"
  shows "length (filter P xs) \<le> 1"
  using assms
proof (induction xs)
  case Nil
  then show ?case by simp
next
  case (Cons x xs)
  show ?case
  proof (cases "P x")
    case True
    have "filter P xs = []"
      unfolding filter_empty_conv
    proof
      fix y assume y: "y \<in> set xs"
      show "\<not> P y"
      proof
        assume "P y"
        with Cons.prems(2) [of x y] True y have "x = y" by simp
        with Cons.prems(1) y show False by simp
      qed
    qed
    with True show ?thesis by simp
  next
    case False
    with Cons show ?thesis by simp
  qed
qed

section \<open>String forms of values\<close>

lemma lower_char_fixed:
  "\<not> is_upper c \<Longrightarrow> lower_char c = c"
  by (simp add: lower_char_def)

lemma py_lower_Cons: "py_lower (c # s) = lower_char c # py_lower s"
  by (simp add: py_lower_def)

lemma py_lower_Nil: "py_lower [] = []"
  by (simp add: py_lower_def)

lemma py_lower_append: "py_lower (s @ t) = py_lower s @ py_lower t"
  by (simp add: py_lower_def)

lemma digit_char: "n < 10 \<Longrightarrow> (of_char (char_of (48 + n) :: char) :: nat) = 48 + n"
  by simp

lemma digits_nonempty: "digits n \<noteq> []"
  by (subst digits.simps) simp

lemma digits_last: "(of_char (last (digits n)) :: nat) = 48 + n mod 10"
  by (subst digits.simps) (simp add: digit_char)

lemma digits_one: "digits n = ''1'' \<longleftrightarrow> n = 1"
proof (cases "n < 10")
  case True
  have "digits n = [char_of (48 + n)]"
    using True by (subst digits.simps) simp
  moreover have "(char_of (48 + n) = CHR ''1'') \<longleftrightarrow> n = 1"
  proof
    assume "char_of (48 + n) = CHR ''1''"
    then have "(of_char (char_of (48 + n) :: char) :: nat) = of_char CHR ''1''"
      by simp
    with True show "n = 1" by (simp add: digit_char)
  next
    assume "n = 1"
    moreover have "char_of (49 :: nat) = CHR ''1''" by code_simp
    ultimately show "char_of (48 + n) = CHR ''1''" by simp
  qed
  ultimately show ?thesis by simp
next
  case False
  have "digits n = digits (n div 10) @ [char_of (48 + n mod 10)]"
    using False by (subst digits.simps) simp
  then have "length (digits n) \<ge> 2"
    using digits_nonempty [of "n div 10"] by (cases "digits (n div 10)") simp_all
  with False show ?thesis by auto
qed

lemma py_lower_digits: "py_lower (digits n) = digits n"
proof (induction n rule: digits.induct)
  case (1 n)
  have nu: "\<not> is_upper (char_of (48 + k) :: char)" if "k < 10" for k :: nat
    using that by (simp add: is_upper_def Let_def digit_char)
  show ?case
  proof (cases "n < 10")
    case True
    then show ?thesis
      by (subst (1 2) digits.simps) (simp add: py_lower_def lower_char_fixed nu)
  next
    case False
    with 1 have "py_lower (digits (n div 10)) = digits (n div 10)" by simp
    with False show ?thesis
      by (subst (1 2) digits.simps) (simp add: py_lower_append py_lower_Cons py_lower_Nil lower_char_fixed nu)
  qed
qed

lemma digits_not_true: "digits n \<noteq> ''true''"
proof
  assume "digits n = ''true''"
  then have "(of_char (last (digits n)) :: nat) = of_char CHR ''e''" by simp
  then show False by (simp add: digits_last)
qed

lemma flag_of_int: "flag_of_value (PInt i) \<longleftrightarrow> i = 1"
proof (cases "i < 0")
  case True
  have "lower_char CHR ''-'' = CHR ''-''" by code_simp
  with True show ?thesis
    by (simp add: flag_of_value_def py_str_def str_int_def py_lower_Cons)
next
  case False
  then have "flag_of_value (PInt i) \<longleftrightarrow> nat i = 1"
    by (simp add: flag_of_value_def py_str_def str_int_def py_lower_digits digits_one digits_not_true)
  with False show ?thesis by auto
qed

lemma flag_of_list: "\<not> flag_of_value (PList xs)"
proof -
  have "lower_char CHR ''['' = CHR ''[''" by code_simp
  then show ?thesis
    by (simp add: flag_of_value_def py_str_def py_lower_Cons)
qed

lemma flag_of_dict: "\<not> flag_of_value (PDict kvs)"
proof -
  have "lower_char CHR ''{'' = CHR ''{''" by code_simp
  then show ?thesis
    by (simp add: flag_of_value_def py_str_def py_lower_Cons)
qed

lemma flag_of_none: "\<not> flag_of_value PNone"
  by code_simp

lemma flag_of_bool: "flag_of_value (PBool b) \<longleftrightarrow> b"
proof (cases b)
  case True
  have "flag_of_value (PBool True)" by code_simp
  with True show ?thesis by simp
next
  case False
  have "\<not> flag_of_value (PBool False)" by code_simp
  with False show ?thesis by simp
qed

lemma flag_of_value_cases:
  "flag_of_value v \<longleftrightarrow>
     (case v of
        PStr s \<Rightarrow> py_lower s = ''1'' \<or> py_lower s = ''true''
      | PBool b \<Rightarrow> b
      | PInt i \<Rightarrow> i = 1
      | PFloat r \<Rightarrow> py_lower r = ''1'' \<or> py_lower r = ''true''
      | _ \<Rightarrow> False)"
proof (cases v)
  case PNone
  then show ?thesis by (simp add: flag_of_none)
next
  case (PBool b)
  then show ?thesis by (simp add: flag_of_bool)
next
  case (PInt i)
  then show ?thesis by (simp add: flag_of_int)
next
  case (PFloat r)
  then show ?thesis by (simp add: flag_of_value_def py_str_def)
next
  case (PStr s)
  then show ?thesis by (simp add: flag_of_value_def py_str_def)
next
  case (PList xs)
  then show ?thesis by (simp add: flag_of_list)
next
  case (PDict kvs)
  then show ?thesis by (simp add: flag_of_dict)
qed

section \<open>Short-text blocks\<close>

lemma short_text_block:
  assumes "parse_step url qo step = Inr q"
    and "block_type qo step = Inr (PStr ''short_text'')"
    and "py_get (block_cfg qo step) ''question_answer'' (PStr []) = Inr ans"
  shows "q_options q = short_text_options ans"
    and "q_correct_answer q = correct_idx (short_text_options ans)"
proof -
  from parse_step_Inr [OF assms(1)] assms(2) obtain body imgs options where
    ex: "extract_options url (block_cfg qo step) (PStr ''short_text'') step = Inr options"
    and q: "q = assemble body imgs options"
    by auto
  from ex assms(3) have "options = short_text_options ans"
    by (simp add: extract_options_def)
  with q show "q_options q = short_text_options ans"
    and "q_correct_answer q = correct_idx (short_text_options ans)"
    by (simp_all add: assemble_def)
qed

lemma correct_idx_single:
  "correct_idx [\<lparr>opt_text = s, opt_is_correct = True, opt_images = []\<rparr>] = [0]"
  by (simp add: correct_idx_def enumerate_eq_zip)

lemma correct_idx_Nil: "correct_idx [] = []"
  by (simp add: correct_idx_def)

section \<open>Missing parts\<close>

lemma parse_field_no_label:
  assumes "select_one sel_answer_input field = Some input_el"
    and "css_safe (or_empty (get_attr (snd input_el) ''id''))"
    and "select_one (sel_label_for (or_empty (get_attr (snd input_el) ''id''))) field = None"
    and "answer_is_correct cm (or_empty (get_attr (snd input_el) ''value'')) = Inr c"
  shows "parse_field url cm field = Inr (Some \<lparr>opt_text = [], opt_is_correct = c, opt_images = []\<rparr>)"
  using assms by (simp add: parse_field_def Let_def label_content_def)

lemma parse_pair_incomplete:
  "pair_halves opt = None \<Longrightarrow> parse_pair url inv_map opt = Inr None"
  by (simp add: parse_pair_def pair_halves_def split: option.splits)

section \<open>Matching blocks\<close>

lemma position_of_Cons:
  "position_of ((k, v) # kvs) a =
     (case position_of kvs a of
        Some p \<Rightarrow> Some p
      | None \<Rightarrow> if v = PStr a then Some k else None)"
  by (simp add: position_of_def split: list.splits)

lemma invert_items_lookup:
  "invert_items kvs inv0 = Inr inv_map \<Longrightarrow>
   inv_map a = (case position_of kvs a of None \<Rightarrow> inv0 a | Some p \<Rightarrow> Some p)"
proof (induction kvs arbitrary: inv0)
  case Nil
  then show ?case by (simp add: position_of_def)
next
  case (Cons kv kvs)
  obtain k v where kv: "kv = (k, v)" by (cases kv)
  show ?case
  proof (cases v)
    case (PStr s)
    with Cons.prems kv have "invert_items kvs (inv0(s \<mapsto> k)) = Inr inv_map" by simp
    from Cons.IH [OF this] show ?thesis
      by (auto simp: kv PStr position_of_Cons split: option.splits)
  next
    case (PList xs)
    with Cons.prems kv show ?thesis by simp
  next
    case (PDict d)
    with Cons.prems kv show ?thesis by simp
  next
    case PNone
    with Cons.prems kv have "invert_items kvs inv0 = Inr inv_map" by simp
    from Cons.IH [OF this] show ?thesis
      by (auto simp: kv PNone position_of_Cons split: option.splits)
  next
    case (PBool b)
    with Cons.prems kv have "invert_items kvs inv0 = Inr inv_map" by simp
    from Cons.IH [OF this] show ?thesis
      by (auto simp: kv PBool position_of_Cons split: option.splits)
  next
    case (PInt i)
    with Cons.prems kv have "invert_items kvs inv0 = Inr inv_map" by simp
    from Cons.IH [OF this] show ?thesis
      by (auto simp: kv PInt position_of_Cons split: option.splits)
  next
    case (PFloat r)
    with Cons.prems kv have "invert_items kvs inv0 = Inr inv_map" by simp
    from Cons.IH [OF this] show ?thesis
      by (auto simp: kv PFloat position_of_Cons split: option.splits)
  qed
qed

lemma inv_ans_map_lookup:
  "inv_ans_map (PDict kvs) = Inr inv_map \<Longrightarrow> inv_map a = position_of kvs a"
  using invert_items_lookup [of kvs Map.empty inv_map a]
  by (simp add: inv_ans_map_def split: option.splits)

lemma parse_pair_complete:
  assumes "parse_pair url inv_map opt = Inr r" and "pair_halves opt = Some halves"
    and "\<And>a. inv_map a = position_of kvs a"
  shows "\<exists>ao. r = Some ao \<and> opt_text ao = pair_text kvs halves \<and> opt_is_correct ao"
  using assms(1,2)
  by (auto simp: parse_pair_def pair_halves_def pair_text_def Let_def assms(3)
           split: option.splits sum.splits)

lemma pairs_texts:
  assumes "\<And>a. inv_map a = position_of kvs a"
  shows "for_each (parse_pair url inv_map) pairs = Inr options \<Longrightarrow>
         map opt_text options = map (pair_text kvs) (List.map_filter pair_halves pairs)
         \<and> (\<forall>ao \<in> set options. opt_is_correct ao)"
proof (induction pairs arbitrary: options)
  case Nil
  then show ?case by (simp add: List.map_filter_simps)
next
  case (Cons p ps)
  from Cons.prems obtain r rs where r: "parse_pair url inv_map p = Inr r"
    and rs: "for_each (parse_pair url inv_map) ps = Inr rs"
    and options: "options = (case r of None \<Rightarrow> rs | Some y \<Rightarrow> y # rs)"
    by (auto split: sum.splits)
  show ?case
  proof (cases "pair_halves p")
    case None
    with r have "r = None" by (simp add: parse_pair_incomplete)
    with None Cons.IH [OF rs] options show ?thesis
      by (simp add: List.map_filter_simps)
  next
    case (Some halves)
    from parse_pair_complete [OF r Some assms] obtain ao where
      "r = Some ao" and "opt_text ao = pair_text kvs halves" and "opt_is_correct ao"
      by blast
    with Some Cons.IH [OF rs] options show ?thesis
      by (simp add: List.map_filter_simps)
  qed
qed

section \<open>The configuration of a block\<close>

lemma extract_loop_append:
  "extract_loop decode (xs @ ys) res = extract_loop decode ys (extract_loop decode xs res)"
  by (induction xs arbitrary: res) (auto split: option.splits)

lemma extract_loop_skip:
  "decode b64 = None \<Longrightarrow>
   extract_loop decode (before @ (qid, b64) # after) res = extract_loop decode (before @ after) res"
  by (simp add: extract_loop_append)

lemma extract_loop_lookup:
  "extract_loop decode ms res q =
     (case filter (\<lambda>(q', b). q' = q \<and> decode b \<noteq> None) ms of
        [] \<Rightarrow> res q
      | x # xs \<Rightarrow> decode (snd (last (x # xs))))"
proof (induction ms arbitrary: res)
  case Nil
  then show ?case by simp
next
  case (Cons m ms)
  obtain q' b where m: "m = (q', b)" by (cases m)
  show ?case
  proof (cases "decode b")
    case None
    then show ?thesis by (simp add: m Cons.IH)
  next
    case (Some d)
    then show ?thesis
      by (simp add: m Cons.IH split: list.splits)
  qed
qed

lemma absent_block_cfg:
  "get_attr (snd step) ''data-question-id'' = Some qid \<Longrightarrow> qo qid = None \<Longrightarrow>
   block_cfg qo step = PDict []"
  by (simp add: block_cfg_def lookup_cfg_def)

lemma absent_block_type:
  "block_cfg qo step = PDict [] \<Longrightarrow>
   block_type qo step =
     Inr (case get_attr (snd step) ''data-type'' of
            None \<Rightarrow> PStr ''radio''
          | Some d \<Rightarrow> if d = [] then PStr ''radio'' else PStr d)"
  by (simp add: block_type_def effective_type_def py_get_def py_or_def attr_value_def
           split: option.splits)

lemma absent_extract:
  assumes "extract_options url (PDict []) t step = Inr options" and "t \<noteq> PStr ''matching''"
  shows "\<forall>ao \<in> set options. \<not> opt_is_correct ao"
proof (cases "t = PStr ''radio'' \<or> t = PStr ''checkbox''")
  case True
  have "py_get (PDict []) ''question_answer'' (PDict []) = Inr (PDict [])"
    by (simp add: py_get_def)
  from choice_options [OF assms(1) True this]
  have "for_each (parse_field url (PDict [])) (answer_fields step) = Inr options" .
  then show ?thesis
    by (rule falsy_fields_flags) simp
next
  case False
  with assms have "options = []"
    by (auto simp: extract_options_def py_get_def short_text_options_def split: if_splits)
  then show ?thesis by simp
qed

lemma absent_matching:
  assumes "extract_options url (PDict []) (PStr ''matching'') step = Inr options"
  shows "\<forall>ao \<in> set options. opt_is_correct ao"
proof -
  have inv: "inv_ans_map (PDict []) = Inr Map.empty"
    by (simp add: inv_ans_map_def)
  from assms have loop: "for_each (parse_pair url Map.empty) (matching_pairs step) = Inr options"
    by (simp add: extract_options_def py_get_def inv)
  have "\<And>a. Map.empty a = position_of [] a"
    by (simp add: position_of_def)
  from pairs_texts [OF this loop] show ?thesis by simp
qed

section \<open>Resolving addresses\<close>



































section \<open>The examples, evaluated\<close>

lemma example_page_parsed:
  "parse_quiz_from_html example_decode page_url example_page example_matches = Inr example_test"
  by code_simp

lemma radio_example: "parse_step page_url radio_options radio_block = Inr radio_question"
  by code_simp

lemma two_example: "parse_step page_url two_options radio_block = Inr two_question"
  by code_simp

lemma two_example_type: "block_type two_options radio_block = Inr (PStr ''radio'')"
  by code_simp

lemma two_example_map:
  "py_get (block_cfg two_options radio_block) ''question_answer'' (PDict []) = Inr (PDict two_answers)"
  by code_simp

lemma radio_answer_ids: "answer_ids radio_block = [''1'', ''2'', ''3'']"
  by code_simp

lemma radio_example_type: "block_type radio_options radio_block = Inr (PStr ''radio'')"
  by code_simp

lemma radio_example_map:
  "py_get (block_cfg radio_options radio_block) ''question_answer'' (PDict []) = Inr (PDict radio_answers)"
  by code_simp

lemma radio_one_truthy: "length (filter (\<lambda>(k, v). flag_of_value v) radio_answers) \<le> 1"
  by code_simp

lemma two_answers_lookup:
  "two_answers \<noteq> [] \<and> map_of two_answers ''2'' = Some (PBool True) \<and> map_of two_answers ''9'' = None"
  by (simp add: two_answers_def)

lemma short_empty_example:
  "parse_step page_url (short_options []) short_block = Inr empty_short_question"
  by code_simp

lemma short_paris_type: "block_type (short_options ''Paris'') short_block = Inr (PStr ''short_text'')"
  by code_simp

lemma short_paris_answer:
  "py_get (block_cfg (short_options ''Paris'') short_block) ''question_answer'' (PStr []) = Inr (PStr ''Paris'')"
  by code_simp

lemma short_paris_example:
  "parse_step page_url (short_options ''Paris'') short_block =
     Inr \<lparr>q_text = ''Capital of France?'',
          q_options = [\<lparr>opt_text = ''Paris'', opt_is_correct = True, opt_images = []\<rparr>],
          q_variants = [''Paris''], q_correct_answer = [0], q_images = []\<rparr>"
  by code_simp

lemma empty_field_no_input: "select_one sel_answer_input empty_field = None"
  by code_simp

lemma half_pair_no_match: "select_one (sel_class ''ays-matching-field-match'') half_pair = None"
  by code_simp

lemma fields_around_empty:
  "for_each (parse_field page_url (PDict radio_answers)) [bare_field, caption_field] =
     Inr [\<lparr>opt_text = [], opt_is_correct = True, opt_images = []\<rparr>,
          \<lparr>opt_text = ''Paris Eiffel tower'', opt_is_correct = False,
            opt_images = [''https://info-master.uz/img/paris.png'']\<rparr>]"
  by code_simp

lemma matching_example:
  "parse_step page_url matching_options matching_block = Inr matching_question"
  by code_simp

lemma matching_example_type: "block_type matching_options matching_block = Inr (PStr ''matching'')"
  by code_simp

lemma matching_example_map:
  "py_get (block_cfg matching_options matching_block) ''question_answer'' (PDict []) = Inr (PDict matching_answers)"
  by code_simp

lemma matching_example_pairs:
  "map (pair_text matching_answers) (complete_pairs matching_block) = [''Cat -> 2'', ''Dog -> 1'']"
  by code_simp

lemma broken_token_fails: "example_decode broken_token = None"
  by code_simp

lemma example_options_values:
  "extract_quiz_options example_decode example_matches ''52455'' = Some radio_config
   \<and> extract_quiz_options example_decode example_matches ''52456'' = None
   \<and> extract_quiz_options example_decode example_matches ''52457'' = Some (short_config [])"
  by code_simp

lemma matching_block_id: "get_attr (snd matching_block) ''data-question-id'' = Some ''52456''"
  by code_simp

lemma bare_matching_example:
  "parse_step page_url (extract_quiz_options example_decode example_matches) matching_block =
     Inr bare_matching_question"
  by code_simp

lemma radio_block_id:
  "get_attr (snd radio_block) ''data-question-id'' = Some ''52455''
   \<and> get_attr (snd radio_block) ''data-type'' = None"
  by code_simp





lemma plain_radio_example:
  "parse_step page_url Map.empty radio_block = Inr plain_radio_question"
  by code_simp

section \<open>Properties of the extraction\<close>

text \<open>
  C6. Every question of a parsed page has as many variants as options, the variant at
  each index is the text of the option at that index, and its correct-answer list is a
  strictly increasing list of valid indices into the options: exactly the indices of
  the options marked correct.
\<close>

theorem question_invariant:
  assumes "parse_quiz_from_html decode url soup matches = Inr t"
    and "q \<in> set (t_questions t)"
  shows "length (q_variants q) = length (q_options q)
       \<and> (\<forall>i < length (q_options q). q_variants q ! i = opt_text (q_options q ! i))
       \<and> sorted_wrt (<) (q_correct_answer q)
       \<and> (\<forall>i \<in> set (q_correct_answer q). i < length (q_options q))
       \<and> set (q_correct_answer q) =
           {i. i < length (q_options q) \<and> opt_is_correct (q_options q ! i)}"
proof -
  from parse_quiz_member [OF assms] obtain step where
    "parse_step url (extract_quiz_options decode matches) step = Inr q"
    by blast
  from parse_step_Inr [OF this] obtain body imgs options where
    q: "q = assemble body imgs options"
    by blast
  show ?thesis
    by (simp add: q assemble_def sorted_correct_idx set_correct_idx)
qed

theorem question_invariant_witness:
  "parse_quiz_from_html example_decode page_url example_page example_matches = Inr example_test
   \<and> radio_question \<in> set (t_questions example_test)
   \<and> length (q_variants radio_question) = length (q_options radio_question)
   \<and> sorted_wrt (<) (q_correct_answer radio_question)
   \<and> set (q_correct_answer radio_question) =
       {i. i < length (q_options radio_question) \<and> opt_is_correct (q_options radio_question ! i)}"
proof -
  have mem: "radio_question \<in> set (t_questions example_test)"
    by (simp add: example_test_def)
  from question_invariant [OF example_page_parsed mem] example_page_parsed mem
  show ?thesis by blast
qed

text \<open>
  C1. In a radio or checkbox block whose configuration gives a mapping, the options are
  the fields that have an input control, in document order, and an option is marked
  correct exactly when the mapping holds a value for its answer identifier whose string
  form, lower-cased, is \<open>1\<close> or \<open>true\<close>; so the correct-answer list has as many entries as
  there are such options. Without a mapping (the configuration has none, or a falsy
  value in its place) no option is marked correct. The radio block with the answers
  \<open>{"1":"0","2":"1","3":"0"}\<close> gives three options and the correct-answer list \<open>[1]\<close>.
\<close>

theorem choice_flags_follow_mapping:
  assumes "parse_step url quiz_options step = Inr q"
    and "block_type quiz_options step = Inr t"
    and "t = PStr ''radio'' \<or> t = PStr ''checkbox''"
    and "py_get (block_cfg quiz_options step) ''question_answer'' (PDict []) = Inr correct_map"
  shows "(\<forall>m. correct_map = PDict m \<longrightarrow>
            map opt_is_correct (q_options q) = map (mapped_correct m) (answer_ids step)
          \<and> length (q_correct_answer q) = length (filter (mapped_correct m) (answer_ids step)))
       \<and> (\<not> py_truthy correct_map \<longrightarrow>
            (\<forall>opt \<in> set (q_options q). \<not> opt_is_correct opt) \<and> q_correct_answer q = [])
       \<and> parse_step page_url radio_options radio_block = Inr radio_question
       \<and> length (q_options radio_question) = 3
       \<and> q_correct_answer radio_question = [1]"
proof -
  have dict: "map opt_is_correct (q_options q) = map (mapped_correct m) (answer_ids step)
            \<and> length (q_correct_answer q) = length (filter (mapped_correct m) (answer_ids step))"
    if "correct_map = PDict m" for m
    using choice_block_flags [OF assms(1) assms(2) assms(3)] assms(4) that by simp
  have none: "(\<forall>opt \<in> set (q_options q). \<not> opt_is_correct opt) \<and> q_correct_answer q = []"
    if falsy: "\<not> py_truthy correct_map"
  proof -
    from parse_step_Inr [OF assms(1)] assms(2) obtain body imgs options where
      ex: "extract_options url (block_cfg quiz_options step) t step = Inr options"
      and q: "q = assemble body imgs options"
      by auto
    from falsy_fields_flags [OF choice_options [OF ex assms(3) assms(4)] falsy]
    have "\<forall>opt \<in> set options. \<not> opt_is_correct opt" .
    then show ?thesis
      by (simp add: q assemble_def correct_idx_none)
  qed
  have scenario: "length (q_options radio_question) = 3 \<and> q_correct_answer radio_question = [1]"
    by (simp add: radio_question_def)
  from dict none radio_example scenario show ?thesis
    by blast
qed

theorem choice_flags_follow_mapping_witness:
  "parse_step page_url two_options radio_block = Inr two_question
   \<and> block_type two_options radio_block = Inr (PStr ''radio'')
   \<and> py_get (block_cfg two_options radio_block) ''question_answer'' (PDict []) = Inr (PDict two_answers)
   \<and> map opt_is_correct (q_options two_question) = map (mapped_correct two_answers) [''1'', ''2'', ''3'']
   \<and> length (q_correct_answer two_question) = length (filter (mapped_correct two_answers) [''1'', ''2'', ''3''])"
  using choice_flags_follow_mapping [OF two_example two_example_type _ two_example_map]
    two_example two_example_type two_example_map radio_answer_ids
  by simp

text \<open>
  C5, as amended. The extractor does not cap the correct-answer list of a radio block: it
  has one entry for each option whose answer identifier the mapping marks correct. It
  has at most one entry when the answer identifiers of the block are distinct and the
  mapping gives a truthy value to at most one identifier.
\<close>

theorem radio_single_answer:
  assumes "parse_step url quiz_options step = Inr q"
    and "block_type quiz_options step = Inr (PStr ''radio'')"
    and "py_get (block_cfg quiz_options step) ''question_answer'' (PDict []) = Inr (PDict m)"
    and "distinct (answer_ids step)"
    and "length (filter (\<lambda>(k, v). flag_of_value v) m) \<le> 1"
  shows "length (q_correct_answer q) \<le> 1"
proof -
  have "length (q_correct_answer q) = length (filter (mapped_correct m) (answer_ids step))"
    using choice_block_flags(2) [OF assms(1) assms(2) _ assms(3)] by simp
  moreover have "length (filter (mapped_correct m) (answer_ids step)) \<le> 1"
    using assms(4) at_most_one_marked [OF assms(5)] by (rule distinct_filter_le_one)
  ultimately show ?thesis by simp
qed

theorem radio_single_answer_witness:
  "parse_step page_url radio_options radio_block = Inr radio_question
   \<and> block_type radio_options radio_block = Inr (PStr ''radio'')
   \<and> distinct (answer_ids radio_block)
   \<and> length (filter (\<lambda>(k, v). flag_of_value v) radio_answers) \<le> 1
   \<and> length (q_correct_answer radio_question) \<le> 1"
proof -
  have d: "distinct (answer_ids radio_block)"
    by (simp add: radio_answer_ids)
  from radio_single_answer [OF radio_example radio_example_type radio_example_map d radio_one_truthy]
    radio_example radio_example_type d radio_one_truthy
  show ?thesis by blast
qed

text \<open>
  C5 as stated fails: under a mapping with two truthy values the radio block gets
  a correct-answer list of length two.
\<close>

theorem radio_two_answers:
  "parse_step page_url two_options radio_block = Inr two_question
   \<and> block_type two_options radio_block = Inr (PStr ''radio'')
   \<and> \<not> length (q_correct_answer two_question) \<le> 1"
  using two_example two_example_type by (simp add: two_question_def)

text \<open>
  C10. Under a non-empty mapping the value found for an answer identifier is turned into
  its string form and lower-cased before it is compared with \<open>1\<close> and \<open>true\<close>. So the
  JSON \<open>true\<close> and the number 1 mark the option correct as the strings do, and no other
  boolean, integer, list, dict or \<open>null\<close> does. An identifier the mapping does not hold
  gets the default \<open>"0"\<close> and is not marked correct.
\<close>

theorem mapped_value_as_string:
  assumes "m \<noteq> []"
  shows "answer_is_correct (PDict m) a =
           Inr (case map_of m a of
                  None \<Rightarrow> False
                | Some v \<Rightarrow> py_lower (py_str v) = ''1'' \<or> py_lower (py_str v) = ''true'')
       \<and> (map_of m a = Some (PBool True) \<longrightarrow> answer_is_correct (PDict m) a = Inr True)
       \<and> (map_of m a = Some (PInt 1) \<longrightarrow> answer_is_correct (PDict m) a = Inr True)
       \<and> (map_of m a = None \<longrightarrow> answer_is_correct (PDict m) a = Inr False)
       \<and> (\<forall>v. map_of m a = Some v \<longrightarrow>
             answer_is_correct (PDict m) a =
               Inr (case v of
                      PStr s \<Rightarrow> py_lower s = ''1'' \<or> py_lower s = ''true''
                    | PBool b \<Rightarrow> b
                    | PInt i \<Rightarrow> i = 1
                    | PFloat r \<Rightarrow> py_lower r = ''1'' \<or> py_lower r = ''true''
                    | _ \<Rightarrow> False))
       \<and> (\<forall>url field r. parse_field url (PDict m) field = Inr r \<and> field_answer_id field = Some a \<longrightarrow>
             (\<exists>opt. r = Some opt \<and> opt_is_correct opt = mapped_correct m a))"
proof -
  have eq: "answer_is_correct (PDict m) a = Inr (mapped_correct m a)"
    using assms by (rule answer_is_correct_dict)
  have first: "answer_is_correct (PDict m) a =
           Inr (case map_of m a of
                  None \<Rightarrow> False
                | Some v \<Rightarrow> py_lower (py_str v) = ''1'' \<or> py_lower (py_str v) = ''true'')"
    by (simp add: eq mapped_correct_def flag_of_value_def split: option.splits)
  have true: "map_of m a = Some (PBool True) \<longrightarrow> answer_is_correct (PDict m) a = Inr True"
    by (simp add: eq mapped_correct_def flag_of_bool)
  have one: "map_of m a = Some (PInt 1) \<longrightarrow> answer_is_correct (PDict m) a = Inr True"
    by (simp add: eq mapped_correct_def flag_of_int)
  have absent: "map_of m a = None \<longrightarrow> answer_is_correct (PDict m) a = Inr False"
    by (simp add: eq mapped_correct_def)
  have cases: "\<forall>v. map_of m a = Some v \<longrightarrow>
             answer_is_correct (PDict m) a =
               Inr (case v of
                      PStr s \<Rightarrow> py_lower s = ''1'' \<or> py_lower s = ''true''
                    | PBool b \<Rightarrow> b
                    | PInt i \<Rightarrow> i = 1
                    | PFloat r \<Rightarrow> py_lower r = ''1'' \<or> py_lower r = ''true''
                    | _ \<Rightarrow> False)"
    using flag_of_value_cases by (simp add: eq mapped_correct_def)
  have field: "\<forall>url field r. parse_field url (PDict m) field = Inr r \<and> field_answer_id field = Some a \<longrightarrow>
             (\<exists>opt. r = Some opt \<and> opt_is_correct opt = mapped_correct m a)"
  proof (intro allI impI)
    fix url field r
    assume h: "parse_field url (PDict m) field = Inr r \<and> field_answer_id field = Some a"
    from parse_field_input [of url "PDict m" field r a] h obtain opt where
      "r = Some opt" and "answer_is_correct (PDict m) a = Inr (opt_is_correct opt)"
      by blast
    with eq show "\<exists>opt. r = Some opt \<and> opt_is_correct opt = mapped_correct m a"
      by simp
  qed
  from first true one absent cases field show ?thesis
    by blast
qed

theorem mapped_value_as_string_witness:
  "two_answers \<noteq> []
   \<and> map_of two_answers ''2'' = Some (PBool True)
   \<and> answer_is_correct (PDict two_answers) ''2'' = Inr True
   \<and> map_of two_answers ''9'' = None
   \<and> answer_is_correct (PDict two_answers) ''9'' = Inr False"
proof -
  have ne: "two_answers \<noteq> []" using two_answers_lookup by simp
  have "map_of two_answers ''2'' = Some (PBool True) \<longrightarrow>
        answer_is_correct (PDict two_answers) ''2'' = Inr True"
    using mapped_value_as_string [OF ne, of "''2''"] by (elim conjE)
  moreover have "map_of two_answers ''9'' = None \<longrightarrow>
        answer_is_correct (PDict two_answers) ''9'' = Inr False"
    using mapped_value_as_string [OF ne, of "''9''"] by (elim conjE)
  ultimately show ?thesis
    using two_answers_lookup by simp
qed

text \<open>
  C7. In a short-text block a non-empty configured answer gives exactly one option: its
  text is the answer, it is marked correct and has no images. An absent or empty answer
  gives no option and the empty correct-answer list, as the configuration
  \<open>{"question_type":"short_text","question_answer":""}\<close> shows.
\<close>

theorem short_text_sole_option:
  assumes "parse_step url quiz_options step = Inr q"
    and "block_type quiz_options step = Inr (PStr ''short_text'')"
    and "py_get (block_cfg quiz_options step) ''question_answer'' (PStr []) = Inr ans"
  shows "(\<forall>s. ans = PStr s \<and> s \<noteq> [] \<longrightarrow>
            q_options q = [\<lparr>opt_text = s, opt_is_correct = True, opt_images = []\<rparr>])
       \<and> (py_truthy ans \<longrightarrow>
            q_options q = [\<lparr>opt_text = py_str ans, opt_is_correct = True, opt_images = []\<rparr>]
            \<and> q_correct_answer q = [0])
       \<and> (\<not> py_truthy ans \<longrightarrow> q_options q = [] \<and> q_correct_answer q = [])
       \<and> (\<forall>kvs. block_cfg quiz_options step = PDict kvs \<and> map_of kvs ''question_answer'' = None \<longrightarrow>
            q_options q = [] \<and> q_correct_answer q = [])
       \<and> (ans = PStr [] \<longrightarrow> q_options q = [] \<and> q_correct_answer q = [])
       \<and> parse_step page_url (short_options []) short_block = Inr empty_short_question
       \<and> q_options empty_short_question = []
       \<and> q_correct_answer empty_short_question = []"
proof -
  note blk = short_text_block [OF assms]
  have str: "\<forall>s. ans = PStr s \<and> s \<noteq> [] \<longrightarrow>
            q_options q = [\<lparr>opt_text = s, opt_is_correct = True, opt_images = []\<rparr>]"
    by (simp add: blk short_text_options_def py_str_def)
  have truthy: "py_truthy ans \<longrightarrow>
            q_options q = [\<lparr>opt_text = py_str ans, opt_is_correct = True, opt_images = []\<rparr>]
            \<and> q_correct_answer q = [0]"
    by (simp add: blk short_text_options_def correct_idx_single)
  have falsy: "\<not> py_truthy ans \<longrightarrow> q_options q = [] \<and> q_correct_answer q = []"
    by (simp add: blk short_text_options_def correct_idx_Nil)
  have absent: "\<forall>kvs. block_cfg quiz_options step = PDict kvs \<and> map_of kvs ''question_answer'' = None \<longrightarrow>
            q_options q = [] \<and> q_correct_answer q = []"
  proof (intro allI impI)
    fix kvs
    assume "block_cfg quiz_options step = PDict kvs \<and> map_of kvs ''question_answer'' = None"
    with assms(3) have "ans = PStr []"
      by (simp add: py_get_def)
    with falsy show "q_options q = [] \<and> q_correct_answer q = []"
      by simp
  qed
  have empty: "ans = PStr [] \<longrightarrow> q_options q = [] \<and> q_correct_answer q = []"
    using falsy by simp
  have scenario: "q_options empty_short_question = [] \<and> q_correct_answer empty_short_question = []"
    by (simp add: empty_short_question_def)
  from str truthy falsy absent empty short_empty_example scenario show ?thesis
    by blast
qed

theorem short_text_sole_option_witness:
  "parse_step page_url (short_options ''Paris'') short_block =
     Inr \<lparr>q_text = ''Capital of France?'',
          q_options = [\<lparr>opt_text = ''Paris'', opt_is_correct = True, opt_images = []\<rparr>],
          q_variants = [''Paris''], q_correct_answer = [0], q_images = []\<rparr>
   \<and> block_type (short_options ''Paris'') short_block = Inr (PStr ''short_text'')
   \<and> py_get (block_cfg (short_options ''Paris'') short_block) ''question_answer'' (PStr []) = Inr (PStr ''Paris'')
   \<and> q_options \<lparr>q_text = ''Capital of France?'',
          q_options = [\<lparr>opt_text = ''Paris'', opt_is_correct = True, opt_images = []\<rparr>],
          q_variants = [''Paris''], q_correct_answer = [0], q_images = []\<rparr>
      = [\<lparr>opt_text = ''Paris'', opt_is_correct = True, opt_images = []\<rparr>]"
  using short_text_sole_option [OF short_paris_example short_paris_type short_paris_answer]
    short_paris_example short_paris_type short_paris_answer
  by simp

text \<open>
  C3. The source takes the text of an option from \<open>label_el.get_text(" ", strip=True)\<close>,
  under the comment that only the text is taken, without the nested labels for images.
  \<open>get_text\<close> returns every text below the label, so the text of a nested label is part
  of the option's text: the label ``Paris'' with a nested caption label ``Eiffel tower''
  gives the option text ``Paris Eiffel tower''. The image inside the nested label is
  collected and resolved against the page address.
\<close>

theorem nested_label_text_included:
  "parse_field page_url (PDict radio_answers) caption_field =
     Inr (Some \<lparr>opt_text = ''Paris Eiffel tower'', opt_is_correct = False,
                 opt_images = [''https://info-master.uz/img/paris.png'']\<rparr>)"
  by code_simp

text \<open>
  C4, as amended. A field without an input control gives no option, and a matching pair
  without its choice half or without its match half gives no option; the loop goes on,
  and its result is the result for the remaining fields or pairs. A field that has an
  input control but no label is not skipped: it gives an option with the empty text, no
  images and the flag the mapping gives its answer identifier.
\<close>

theorem missing_parts:
  "(select_one sel_answer_input field = None \<longrightarrow>
      parse_field url cm field = Inr None
      \<and> for_each (parse_field url cm) (before @ field # after) =
          for_each (parse_field url cm) (before @ after))
   \<and> (select_one (sel_class ''ays-matching-field-choice'') opt = None
       \<or> select_one (sel_class ''ays-matching-field-match'') opt = None \<longrightarrow>
      parse_pair url inv_map opt = Inr None
      \<and> for_each (parse_pair url inv_map) (pairs_before @ opt # pairs_after) =
          for_each (parse_pair url inv_map) (pairs_before @ pairs_after))
   \<and> (select_one sel_answer_input field = Some input_el
       \<and> css_safe (or_empty (get_attr (snd input_el) ''id''))
       \<and> select_one (sel_label_for (or_empty (get_attr (snd input_el) ''id''))) field = None
       \<and> answer_is_correct cm (or_empty (get_attr (snd input_el) ''value'')) = Inr c \<longrightarrow>
      parse_field url cm field =
        Inr (Some \<lparr>opt_text = [], opt_is_correct = c, opt_images = []\<rparr>))"
proof -
  have a: "parse_field url cm field = Inr None
      \<and> for_each (parse_field url cm) (before @ field # after) =
          for_each (parse_field url cm) (before @ after)"
    if "select_one sel_answer_input field = None"
    using parse_field_no_input [OF that] for_each_skip [of "parse_field url cm" field before after]
    by simp
  have b: "parse_pair url inv_map opt = Inr None
      \<and> for_each (parse_pair url inv_map) (pairs_before @ opt # pairs_after) =
          for_each (parse_pair url inv_map) (pairs_before @ pairs_after)"
    if "select_one (sel_class ''ays-matching-field-choice'') opt = None
       \<or> select_one (sel_class ''ays-matching-field-match'') opt = None"
  proof -
    from that have "pair_halves opt = None"
      by (auto simp: pair_halves_def split: option.splits)
    then have "parse_pair url inv_map opt = Inr None"
      by (rule parse_pair_incomplete)
    then show ?thesis
      using for_each_skip [of "parse_pair url inv_map" opt pairs_before pairs_after] by simp
  qed
  have c: "parse_field url cm field =
        Inr (Some \<lparr>opt_text = [], opt_is_correct = c, opt_images = []\<rparr>)"
    if "select_one sel_answer_input field = Some input_el
       \<and> css_safe (or_empty (get_attr (snd input_el) ''id''))
       \<and> select_one (sel_label_for (or_empty (get_attr (snd input_el) ''id''))) field = None
       \<and> answer_is_correct cm (or_empty (get_attr (snd input_el) ''value'')) = Inr c"
    using that parse_field_no_label [of field input_el cm c url] by blast
  from a b c show ?thesis by blast
qed

theorem missing_parts_witness:
  "select_one sel_answer_input empty_field = None
   \<and> parse_field page_url (PDict radio_answers) empty_field = Inr None
   \<and> for_each (parse_field page_url (PDict radio_answers)) ([bare_field] @ empty_field # [caption_field]) =
       Inr [\<lparr>opt_text = [], opt_is_correct = True, opt_images = []\<rparr>,
            \<lparr>opt_text = ''Paris Eiffel tower'', opt_is_correct = False,
              opt_images = [''https://info-master.uz/img/paris.png'']\<rparr>]
   \<and> select_one (sel_class ''ays-matching-field-match'') half_pair = None
   \<and> parse_pair page_url Map.empty half_pair = Inr None"
proof -
  have f: "parse_field page_url (PDict radio_answers) empty_field = Inr None
      \<and> for_each (parse_field page_url (PDict radio_answers)) ([bare_field] @ empty_field # [caption_field]) =
          for_each (parse_field page_url (PDict radio_answers)) ([bare_field] @ [caption_field])"
    using missing_parts [where field = empty_field and url = page_url and cm = "PDict radio_answers"
        and before = "[bare_field]" and after = "[caption_field]"]
      empty_field_no_input by blast
  have p: "parse_pair page_url Map.empty half_pair = Inr None"
    using missing_parts [where opt = half_pair and url = page_url and inv_map = Map.empty]
      half_pair_no_match by blast
  from f p fields_around_empty empty_field_no_input half_pair_no_match show ?thesis
    by simp
qed

text \<open>
  C4 as stated fails for the label: a field with an input control and no label
  contributes an option.
\<close>

theorem field_without_label_kept:
  "select_one sel_answer_input bare_field \<noteq> None
   \<and> select_one (sel_label_for ''ays-answer-2'') bare_field = None
   \<and> parse_field page_url (PDict radio_answers) bare_field =
       Inr (Some \<lparr>opt_text = [], opt_is_correct = True, opt_images = []\<rparr>)"
  by code_simp

text \<open>
  C2, as amended. A matching block gives one option for each pair that has both halves,
  in document order. The text of an option is the text of the choice, followed by
  \<open>->\<close> and the position when the configuration holds the pair's answer identifier
  as the value of a position (the inverse map), and every option is marked correct. For
  the pairs ``Cat'' beside \<open>b3\<close> and ``Dog'' beside \<open>a7\<close>, in that order, and the
  configuration \<open>{"1":"a7","2":"b3"}\<close> the options are \<open>Cat -> 2\<close>, then \<open>Dog -> 1\<close>.
\<close>

theorem matching_options_in_document_order:
  assumes "parse_step url quiz_options step = Inr q"
    and "block_type quiz_options step = Inr (PStr ''matching'')"
    and "py_get (block_cfg quiz_options step) ''question_answer'' (PDict []) = Inr (PDict kvs)"
  shows "map opt_text (q_options q) = map (pair_text kvs) (complete_pairs step)
       \<and> (\<forall>opt \<in> set (q_options q). opt_is_correct opt)
       \<and> parse_step page_url matching_options matching_block = Inr matching_question
       \<and> map opt_text (q_options matching_question) = [''Cat -> 2'', ''Dog -> 1'']
       \<and> map opt_is_correct (q_options matching_question) = [True, True]"
proof -
  from parse_step_Inr [OF assms(1)] assms(2) obtain body imgs options where
    ex: "extract_options url (block_cfg quiz_options step) (PStr ''matching'') step = Inr options"
    and q: "q = assemble body imgs options"
    by auto
  from ex assms(3) obtain inv_map where
    inv: "inv_ans_map (PDict kvs) = Inr inv_map"
    and loop: "for_each (parse_pair url inv_map) (matching_pairs step) = Inr options"
    by (auto simp: extract_options_def split: sum.splits)
  have "map opt_text options = map (pair_text kvs) (List.map_filter pair_halves (matching_pairs step))
        \<and> (\<forall>ao \<in> set options. opt_is_correct ao)"
    using inv_ans_map_lookup [OF inv] loop by (rule pairs_texts)
  then have general: "map opt_text (q_options q) = map (pair_text kvs) (complete_pairs step)
       \<and> (\<forall>opt \<in> set (q_options q). opt_is_correct opt)"
    by (simp add: q assemble_def complete_pairs_def)
  have scenario: "map opt_text (q_options matching_question) = [''Cat -> 2'', ''Dog -> 1'']
       \<and> map opt_is_correct (q_options matching_question) = [True, True]"
    by (simp add: matching_question_def)
  from general matching_example scenario show ?thesis by blast
qed

theorem matching_options_in_document_order_witness:
  "parse_step page_url matching_options matching_block = Inr matching_question
   \<and> block_type matching_options matching_block = Inr (PStr ''matching'')
   \<and> py_get (block_cfg matching_options matching_block) ''question_answer'' (PDict []) = Inr (PDict matching_answers)
   \<and> map opt_text (q_options matching_question) = map (pair_text matching_answers) (complete_pairs matching_block)
   \<and> map (pair_text matching_answers) (complete_pairs matching_block) = [''Cat -> 2'', ''Dog -> 1'']"
  using matching_options_in_document_order [OF matching_example matching_example_type matching_example_map]
    matching_example matching_example_type matching_example_map matching_example_pairs
  by simp

text \<open>
  C2 as stated fails: with ``Cat'' first in the document the options are not
  \<open>Dog -> 1\<close>, then \<open>Cat -> 2\<close>.
\<close>

theorem matching_order_not_reversed:
  "parse_step page_url matching_options matching_block = Inr matching_question
   \<and> map opt_text (q_options matching_question) \<noteq> [''Dog -> 1'', ''Cat -> 2'']"
  using matching_example by (simp add: matching_question_def)

text \<open>
  C8, as amended. An assignment whose token does not decode, or whose decoded text is no
  JSON, is left out and changes nothing else: the result is the one for the page without
  that assignment, and a question id maps to the last of its assignments that decodes. A
  block whose question id has no entry is parsed as its own type attribute says, and as
  a radio block when it has no type attribute or an empty one. In such a block no option
  is marked correct, unless the type attribute says \<open>matching\<close>: the options of a
  matching block are marked correct whatever the configuration holds.
\<close>

theorem broken_config_entry:
  "(decode b64 = None \<longrightarrow>
      extract_quiz_options decode (before @ (qid, b64) # after) =
      extract_quiz_options decode (before @ after))
   \<and> extract_quiz_options decode matches k =
       (case filter (\<lambda>(q, b). q = k \<and> decode b \<noteq> None) matches of
          [] \<Rightarrow> None
        | x # xs \<Rightarrow> decode (snd (last (x # xs))))
   \<and> (get_attr (snd step) ''data-question-id'' = Some k \<and> quiz_options k = None \<longrightarrow>
        block_type quiz_options step =
          Inr (case get_attr (snd step) ''data-type'' of
                 None \<Rightarrow> PStr ''radio''
               | Some d \<Rightarrow> if d = [] then PStr ''radio'' else PStr d)
        \<and> (\<forall>q. parse_step url quiz_options step = Inr q
                 \<and> get_attr (snd step) ''data-type'' \<noteq> Some ''matching'' \<longrightarrow>
               (\<forall>opt \<in> set (q_options q). \<not> opt_is_correct opt) \<and> q_correct_answer q = [])
        \<and> (\<forall>q. parse_step url quiz_options step = Inr q
                 \<and> get_attr (snd step) ''data-type'' = Some ''matching'' \<longrightarrow>
               (\<forall>opt \<in> set (q_options q). opt_is_correct opt)))"
proof -
  have skip: "decode b64 = None \<longrightarrow>
      extract_quiz_options decode (before @ (qid, b64) # after) =
      extract_quiz_options decode (before @ after)"
    by (simp add: extract_quiz_options_def extract_loop_skip)
  have lookup: "extract_quiz_options decode matches k =
       (case filter (\<lambda>(q, b). q = k \<and> decode b \<noteq> None) matches of
          [] \<Rightarrow> None
        | x # xs \<Rightarrow> decode (snd (last (x # xs))))"
    unfolding extract_quiz_options_def by (subst extract_loop_lookup) simp
  have absent: "block_type quiz_options step =
          Inr (case get_attr (snd step) ''data-type'' of
                 None \<Rightarrow> PStr ''radio''
               | Some d \<Rightarrow> if d = [] then PStr ''radio'' else PStr d)
        \<and> (\<forall>q. parse_step url quiz_options step = Inr q
                 \<and> get_attr (snd step) ''data-type'' \<noteq> Some ''matching'' \<longrightarrow>
               (\<forall>opt \<in> set (q_options q). \<not> opt_is_correct opt) \<and> q_correct_answer q = [])
        \<and> (\<forall>q. parse_step url quiz_options step = Inr q
                 \<and> get_attr (snd step) ''data-type'' = Some ''matching'' \<longrightarrow>
               (\<forall>opt \<in> set (q_options q). opt_is_correct opt))"
    if h: "get_attr (snd step) ''data-question-id'' = Some k \<and> quiz_options k = None"
  proof -
    from h have cfg: "block_cfg quiz_options step = PDict []"
      by (simp add: absent_block_cfg)
    note ty = absent_block_type [OF cfg]
    have other: "(\<forall>opt \<in> set (q_options q). \<not> opt_is_correct opt) \<and> q_correct_answer q = []"
      if q: "parse_step url quiz_options step = Inr q"
        and nm: "get_attr (snd step) ''data-type'' \<noteq> Some ''matching''" for q
    proof -
      from parse_step_Inr [OF q] obtain t body imgs options where
        t: "block_type quiz_options step = Inr t"
        and ex: "extract_options url (block_cfg quiz_options step) t step = Inr options"
        and qq: "q = assemble body imgs options"
        by blast
      from t ty nm have "t \<noteq> PStr ''matching''"
        by (auto split: option.splits if_splits)
      with ex cfg have "\<forall>ao \<in> set options. \<not> opt_is_correct ao"
        using absent_extract by simp
      then show ?thesis
        by (simp add: qq assemble_def correct_idx_none)
    qed
    have matching: "\<forall>opt \<in> set (q_options q). opt_is_correct opt"
      if q: "parse_step url quiz_options step = Inr q"
        and m: "get_attr (snd step) ''data-type'' = Some ''matching''" for q
    proof -
      from parse_step_Inr [OF q] obtain t body imgs options where
        t: "block_type quiz_options step = Inr t"
        and ex: "extract_options url (block_cfg quiz_options step) t step = Inr options"
        and qq: "q = assemble body imgs options"
        by blast
      from t ty m have "t = PStr ''matching''" by simp
      with ex cfg have "\<forall>ao \<in> set options. opt_is_correct ao"
        using absent_matching by simp
      then show ?thesis
        by (simp add: qq assemble_def)
    qed
    from ty other matching show ?thesis by blast
  qed
  from skip lookup absent show ?thesis by blast
qed

theorem broken_config_entry_witness:
  "example_decode broken_token = None
   \<and> extract_quiz_options example_decode
        ([(''52455'', radio_token)] @ (''52456'', broken_token) # [(''52457'', short_token)]) =
      extract_quiz_options example_decode ([(''52455'', radio_token)] @ [(''52457'', short_token)])
   \<and> extract_quiz_options example_decode example_matches ''52455'' = Some radio_config
   \<and> extract_quiz_options example_decode example_matches ''52457'' = Some (short_config [])
   \<and> get_attr (snd radio_block) ''data-question-id'' = Some ''52455''
   \<and> block_type Map.empty radio_block = Inr (PStr ''radio'')
   \<and> parse_step page_url Map.empty radio_block = Inr plain_radio_question
   \<and> q_correct_answer plain_radio_question = []"
proof -
  have skip: "extract_quiz_options example_decode
        ([(''52455'', radio_token)] @ (''52456'', broken_token) # [(''52457'', short_token)]) =
      extract_quiz_options example_decode ([(''52455'', radio_token)] @ [(''52457'', short_token)])"
    using broken_config_entry [where decode = example_decode and ?b64.0 = broken_token
        and before = "[(''52455'', radio_token)]" and qid = "''52456''"
        and after = "[(''52457'', short_token)]"]
      broken_token_fails by blast
  note absent = broken_config_entry [where step = radio_block and k = "''52455''"
        and quiz_options = Map.empty and url = page_url]
  have ty: "block_type Map.empty radio_block = Inr (PStr ''radio'')"
    using absent radio_block_id by simp
  have none: "q_correct_answer plain_radio_question = []"
    using absent radio_block_id plain_radio_example by simp
  from skip ty none broken_token_fails example_options_values radio_block_id plain_radio_example
  show ?thesis by simp
qed

text \<open>
  C8 as stated fails for a matching block: the token of the example page's
  matching block is cut off, its question id has no entry, and both its options are
  marked correct.
\<close>

theorem unconfigured_matching_marked_correct:
  "extract_quiz_options example_decode example_matches ''52456'' = None
   \<and> get_attr (snd matching_block) ''data-question-id'' = Some ''52456''
   \<and> parse_step page_url (extract_quiz_options example_decode example_matches) matching_block =
       Inr bare_matching_question
   \<and> map opt_is_correct (q_options bare_matching_question) = [True, True]"
  using example_options_values matching_block_id bare_matching_example
  by (simp add: bare_matching_question_def)




end
